theory Spec2Isabelle
  imports Complex_Main "HOL-Library.Multiset"
begin

section \<open>Data model of \<open>ephemeris_time.py\<close>\<close>

text \<open>
  The program reads a table of transit events, rejects the events that fail an ordered
  chain of checks, sorts the admitted events by their end time and runs one greedy
  forward pass that keeps every event starting at or after the end of the last kept one.

  Numbers of the table are Python floats that may be NaN: a value of type \<open>num\<close> is
  \<open>None\<close> for NaN and \<open>Some q\<close> for the number \<open>q\<close>. Every comparison with NaN is
  false, as in Python.

  A timestamp is a point on the time axis and a timedelta a difference of two such
  points, both measured in hours: thirty minutes is \<open>1 / 2\<close>. Adding a timedelta to a
  timestamp is exact, as it is in pandas, where both are whole numbers of nanoseconds.
  What is not exact is the step from a float to a timedelta: \<open>pd.Timedelta(hours=x)\<close> keeps
  whole nanoseconds only, by float arithmetic that lies outside this development. That
  step is therefore a parameter of the model, of type \<open>to_timedelta\<close>, about which nothing
  is assumed. Times are not bounded here, whereas pandas holds them in 64 bits: the model
  describes the program on tables whose times stay in the range of a pandas timestamp.
\<close>

type_synonym num = "rat option"
type_synonym timestamp = rat
type_synonym timedelta = rat
type_synonym to_timedelta = "rat \<Rightarrow> timedelta"

definition isna :: "num \<Rightarrow> bool" where
  "isna x = (x = None)"

definition nan_lt :: "num \<Rightarrow> rat \<Rightarrow> bool" where
  "nan_lt x b = (case x of None \<Rightarrow> False | Some v \<Rightarrow> v < b)"

definition nan_gt :: "num \<Rightarrow> rat \<Rightarrow> bool" where
  "nan_gt x b = (case x of None \<Rightarrow> False | Some v \<Rightarrow> v > b)"

text \<open>One row of the input table, with the column names of the source.\<close>

record row =
  planetname :: string
  transitduration :: num
  midpointcalendar :: timestamp
  ra :: num
  dec :: num
  period :: num
  transitdepthcalc :: num
  midpointairmass :: num
  ingressairmass :: num
  egressairmass :: num
  magnitude_k :: num

text \<open>
  The input table: its rows, and whether it has the two optional columns. The fields
  \<open>ingressairmass\<close> and \<open>egressairmass\<close> of a row are read only when the column exists.
\<close>

record dataframe =
  has_ingressairmass :: bool
  has_egressairmass :: bool
  rows :: "row list"

text \<open>The keyword arguments of \<open>optimize_schedule\<close>. A limit that is \<open>False\<close> is \<open>None\<close>.\<close>

record config =
  magnitude_limit :: "(rat \<times> rat) option"
  air_mass_lim :: bool
  setup_time :: bool
  period_limit :: "(rat \<times> rat) option"
  transit_depth_limit :: "(rat \<times> rat) option"
  max_airmass :: "rat \<times> rat"
  nanignore_airmass :: bool
  time_window :: "timestamp option \<times> timestamp option"

datatype cause =
    DurationNaN
  | PeriodLimit
  | StartBeforeWindow
  | EndAfterWindow
  | MagnitudeLimit
  | AirMassLimit
  | TransitDepthLimit
  | NaNIngressEgress
  | IngressEgressMissing
  | IngressEgressLimit
  | Overlapping

fun cause_text :: "cause \<Rightarrow> string" where
  "cause_text DurationNaN = ''Duration is NaN''"
| "cause_text PeriodLimit = ''Period limit exceeded''"
| "cause_text StartBeforeWindow = ''Transit start time is before the time window''"
| "cause_text EndAfterWindow = ''Transit end time is after the time window''"
| "cause_text MagnitudeLimit = ''Magnitude limit exceeded''"
| "cause_text AirMassLimit = ''Air mass limit exceeded''"
| "cause_text TransitDepthLimit = ''Transit depth limit exceeded''"
| "cause_text NaNIngressEgress = ''NaN in ingress/egress air mass''"
| "cause_text IngressEgressMissing = ''Ingress/Egress air mass data missing''"
| "cause_text IngressEgressLimit = ''Ingress/Egress air mass limit exceeded''"
| "cause_text Overlapping = ''Overlapping with another target''"

text \<open>
  \<open>current_row_info\<close>: the eleven values of an admitted event, the columns of
  \<open>valid_candidates_df\<close>.
\<close>

record candidate =
  c_name :: string
  c_duration :: num
  c_midpoint :: timestamp
  c_start :: timestamp
  c_end :: timestamp
  c_ra :: num
  c_dec :: num
  c_period :: num
  c_depth :: num
  c_air_mass :: num
  c_mag_k :: num

text \<open>
  A row of the optimized schedule: the candidate with the two columns
  \<open>Schedule Start Time\<close> and \<open>Schedule End Time\<close> that the source adds at the end.
\<close>

record slot = candidate +
  schedule_start :: timestamp
  schedule_end :: timestamp

text \<open>An entry of the cut list: twelve values, the two times possibly \<open>None\<close>.\<close>

record cut_entry =
  x_name :: string
  x_duration :: num
  x_midpoint :: timestamp
  x_start :: "timestamp option"
  x_end :: "timestamp option"
  x_ra :: num
  x_dec :: num
  x_period :: num
  x_depth :: num
  x_air_mass :: num
  x_mag_k :: num
  x_cause :: cause

section \<open>The event model\<close>

text \<open>
  \<open>calculate_transit_times(midpoint, duration, setup_time)\<close>, for a duration that is a
  number. The parameter \<open>timedelta_hours\<close> is \<open>pd.Timedelta(hours=...)\<close>;
  \<open>pd.Timedelta(minutes=30)\<close> is exactly half an hour.
\<close>

definition calculate_transit_times ::
  "to_timedelta \<Rightarrow> timestamp \<Rightarrow> rat \<Rightarrow> bool \<Rightarrow> timestamp \<times> timestamp" where
  "calculate_transit_times timedelta_hours midpoint duration setup =
     (if setup
      then (midpoint - 1 / 2 - timedelta_hours (duration / 2),
            midpoint + 1 / 2 + timedelta_hours (duration / 2))
      else (midpoint - timedelta_hours (duration / 2),
            midpoint + timedelta_hours (duration / 2)))"

section \<open>The admission filter\<close>

text \<open>
  \<open>without_times\<close> builds the cut-list entry
  \<open>[name, duration, midpoint, None, None, ra, dec, period, transitdepth, air_mass, mag_k, cause]\<close>
  and \<open>with_cause\<close> is \<open>current_row_info + [cause]\<close>.
\<close>

definition without_times :: "row \<Rightarrow> cause \<Rightarrow> cut_entry" where
  "without_times r c =
     \<lparr>x_name = planetname r, x_duration = transitduration r, x_midpoint = midpointcalendar r,
      x_start = None, x_end = None, x_ra = ra r, x_dec = dec r, x_period = period r,
      x_depth = transitdepthcalc r, x_air_mass = midpointairmass r, x_mag_k = magnitude_k r,
      x_cause = c\<rparr>"

definition with_cause :: "candidate \<Rightarrow> cause \<Rightarrow> cut_entry" where
  "with_cause i c =
     \<lparr>x_name = c_name i, x_duration = c_duration i, x_midpoint = c_midpoint i,
      x_start = Some (c_start i), x_end = Some (c_end i), x_ra = c_ra i, x_dec = c_dec i,
      x_period = c_period i, x_depth = c_depth i, x_air_mass = c_air_mass i,
      x_mag_k = c_mag_k i, x_cause = c\<rparr>"

definition outside :: "(rat \<times> rat) option \<Rightarrow> num \<Rightarrow> bool" where
  "outside limit v =
     (case limit of None \<Rightarrow> False | Some (lo, hi) \<Rightarrow> nan_lt v lo \<or> nan_gt v hi)"

text \<open>
  The check against the time window, lines 218 to 222: the cause it sets, if any.
\<close>

definition window_cause ::
  "timestamp option \<times> timestamp option \<Rightarrow> timestamp \<Rightarrow> timestamp \<Rightarrow> cause option" where
  "window_cause tw transit_start_time transit_end_time =
     (let (window_start, window_end) = tw in
      if (case window_start of None \<Rightarrow> False | Some ws \<Rightarrow> transit_start_time < ws)
      then Some StartBeforeWindow
      else if (case window_end of None \<Rightarrow> False | Some we \<Rightarrow> transit_end_time > we)
      then Some EndAfterWindow
      else None)"

text \<open>
  The checks after the time window, lines 233 to 255, on \<open>current_row_info\<close> and the two
  optional air masses.
\<close>

definition quality_cause :: "config \<Rightarrow> dataframe \<Rightarrow> row \<Rightarrow> cause option" where
  "quality_cause cfg df r =
     (let ingress_air_mass = (if has_ingressairmass df then ingressairmass r else None);
          egress_air_mass = (if has_egressairmass df then egressairmass r else None);
          (maxingressairmass, maxegressairmass) = max_airmass cfg
      in
      if outside (magnitude_limit cfg) (magnitude_k r) then Some MagnitudeLimit
      else if air_mass_lim cfg \<and> nan_gt (midpointairmass r) 2 then Some AirMassLimit
      else if outside (transit_depth_limit cfg) (transitdepthcalc r) then Some TransitDepthLimit
      else if \<not> nanignore_airmass cfg \<and> (isna ingress_air_mass \<or> isna egress_air_mass)
      then (if has_ingressairmass df \<and> has_egressairmass df
            then Some NaNIngressEgress else Some IngressEgressMissing)
      else if (\<not> isna ingress_air_mass \<and> nan_gt ingress_air_mass maxingressairmass)
            \<or> (\<not> isna egress_air_mass \<and> nan_gt egress_air_mass maxegressairmass)
      then Some IngressEgressLimit
      else None)"

text \<open>
  The body of the first loop for one row: \<open>Inl\<close> is the entry appended to \<open>cut_list\<close>,
  \<open>Inr\<close> the entry appended to \<open>valid_candidates\<close>. The variable \<open>current_row_info\<close> is
  \<open>None\<close> until line 230 assigns it, so it is \<open>None\<close> where line 226 reads it.
\<close>

definition filter_row ::
  "to_timedelta \<Rightarrow> config \<Rightarrow> dataframe \<Rightarrow> row \<Rightarrow> cut_entry + candidate" where
  "filter_row td cfg df r =
     (let current_row_info = (None :: candidate option) in
      case transitduration r of
        None \<Rightarrow> Inl (without_times r DurationNaN)
      | Some duration \<Rightarrow>
          if outside (period_limit cfg) (period r) then Inl (without_times r PeriodLimit)
          else
            let (transit_start_time, transit_end_time) =
                  calculate_transit_times td (midpointcalendar r) duration (setup_time cfg)
            in
            case window_cause (time_window cfg) transit_start_time transit_end_time of
              Some c \<Rightarrow>
                Inl (case current_row_info of
                       Some info \<Rightarrow> with_cause info c
                     | None \<Rightarrow> without_times r c)
            | None \<Rightarrow>
                let current_row_info =
                      \<lparr>c_name = planetname r, c_duration = transitduration r,
                       c_midpoint = midpointcalendar r, c_start = transit_start_time,
                       c_end = transit_end_time, c_ra = ra r, c_dec = dec r,
                       c_period = period r, c_depth = transitdepthcalc r,
                       c_air_mass = midpointairmass r, c_mag_k = magnitude_k r\<rparr>
                in
                case quality_cause cfg df r of
                  Some c \<Rightarrow> Inl (with_cause current_row_info c)
                | None \<Rightarrow> Inr current_row_info)"

text \<open>The first loop: the state is the pair of \<open>valid_candidates\<close> and \<open>cut_list\<close>.\<close>

definition admission_step ::
  "to_timedelta \<Rightarrow> config \<Rightarrow> dataframe \<Rightarrow> row \<Rightarrow> candidate list \<times> cut_entry list
     \<Rightarrow> candidate list \<times> cut_entry list" where
  "admission_step td cfg df r st =
     (case st of (valid_candidates, cut_list) \<Rightarrow>
        (case filter_row td cfg df r of
           Inl e \<Rightarrow> (valid_candidates, cut_list @ [e])
         | Inr i \<Rightarrow> (valid_candidates @ [i], cut_list)))"

definition admission_loop ::
  "to_timedelta \<Rightarrow> config \<Rightarrow> dataframe \<Rightarrow> candidate list \<times> cut_entry list" where
  "admission_loop td cfg df = fold (admission_step td cfg df) (rows df) ([], [])"

definition admitted :: "to_timedelta \<Rightarrow> config \<Rightarrow> dataframe \<Rightarrow> candidate list" where
  "admitted td cfg df = fst (admission_loop td cfg df)"

section \<open>The interval scheduler\<close>

text \<open>
  The effective times of the overlap test, lines 271 to 276, which are also the values of
  the columns \<open>Schedule Start Time\<close> and \<open>Schedule End Time\<close> (lines 297 to 302).
\<close>

definition schedule_start_time :: "bool \<Rightarrow> candidate \<Rightarrow> timestamp" where
  "schedule_start_time setup i = (if setup then c_start i - 1 / 2 else c_start i)"

definition schedule_end_time :: "bool \<Rightarrow> candidate \<Rightarrow> timestamp" where
  "schedule_end_time setup i = (if setup then c_end i + 1 / 2 else c_end i)"

text \<open>
  The second loop: the state is \<open>optimized_schedule\<close>, \<open>last_end_time\<close> and \<open>cut_list\<close>.
\<close>

definition schedule_step ::
  "bool \<Rightarrow> candidate \<Rightarrow> candidate list \<times> timestamp option \<times> cut_entry list
     \<Rightarrow> candidate list \<times> timestamp option \<times> cut_entry list" where
  "schedule_step setup i st =
     (case st of (optimized_schedule, last_end_time, cut_list) \<Rightarrow>
        if (case last_end_time of None \<Rightarrow> True | Some l \<Rightarrow> schedule_start_time setup i \<ge> l)
        then (optimized_schedule @ [i], Some (schedule_end_time setup i), cut_list)
        else (optimized_schedule, last_end_time, cut_list @ [with_cause i Overlapping]))"

definition add_schedule_columns :: "bool \<Rightarrow> candidate \<Rightarrow> slot" where
  "add_schedule_columns setup i =
     candidate.extend i
       \<lparr>schedule_start = schedule_start_time setup i, schedule_end = schedule_end_time setup i\<rparr>"

text \<open>
  The call \<open>sort_values(by='Transit End Time')\<close> is a routine of the pandas library and
  not part of the program: it is the parameter \<open>sort_values\<close>. What the program may expect
  of it is \<open>sorts_by_end\<close>: the result holds the same candidates, in nondecreasing order of
  \<open>c_end\<close>.
\<close>

definition sorts_by_end :: "(candidate list \<Rightarrow> candidate list) \<Rightarrow> candidate list \<Rightarrow> bool" where
  "sorts_by_end sort_values xs =
     (sorted (map c_end (sort_values xs)) \<and> mset (sort_values xs) = mset xs)"

text \<open>
  Lines 175 to 302 of \<open>optimize_schedule\<close>: the two tables \<open>optimized_schedule_df\<close> and
  \<open>cut_list_df\<close> as they stand when the plotting function is called.
\<close>

definition optimize_schedule_tables ::
  "to_timedelta \<Rightarrow> (candidate list \<Rightarrow> candidate list) \<Rightarrow> config \<Rightarrow> dataframe
     \<Rightarrow> slot list \<times> cut_entry list" where
  "optimize_schedule_tables td sort_values cfg df =
     (case admission_loop td cfg df of (valid_candidates, cut_list) \<Rightarrow>
        (case fold (schedule_step (setup_time cfg)) (sort_values valid_candidates)
                ([], None, cut_list) of
           (optimized_schedule, last_end_time, cut_list') \<Rightarrow>
             (map (add_schedule_columns (setup_time cfg)) optimized_schedule, cut_list')))"

text \<open>
  \<open>plot_schedule_with_plotly\<close>, as far as it decides whether \<open>optimize_schedule\<close> returns.
  A schedule without rows is a frame without columns (line 285, and line 292 skips the
  two added columns), so the first column that either branch reads,
  \<open>schedule_df['Name']\<close>, raises \<open>KeyError\<close>. A schedule with rows has every column read.
  The drawing and the image file are effects outside the model.
\<close>

datatype error = KeyError string

definition plot_schedule_with_plotly :: "slot list \<Rightarrow> bool \<Rightarrow> error + unit" where
  "plot_schedule_with_plotly schedule_df setup =
     (if schedule_df = [] then Inl (KeyError ''Name'') else Inr ())"

text \<open>
  \<open>optimize_schedule\<close>: the tables, the call of the plotting function at line 304, whose
  exception leaves the function, and the return of the two tables at line 309. The two
  printed lines are left out.
\<close>

definition optimize_schedule ::
  "to_timedelta \<Rightarrow> (candidate list \<Rightarrow> candidate list) \<Rightarrow> config \<Rightarrow> dataframe
     \<Rightarrow> error + slot list \<times> cut_entry list" where
  "optimize_schedule td sort_values cfg df =
     (case optimize_schedule_tables td sort_values cfg df of
        (optimized_schedule_df, cut_list_df) \<Rightarrow>
          (case plot_schedule_with_plotly optimized_schedule_df (setup_time cfg) of
             Inl e \<Rightarrow> Inl e
           | Inr u \<Rightarrow> Inr (optimized_schedule_df, cut_list_df)))"

section \<open>The schedule equivalence counter\<close>

text \<open>
  \<open>count_max_schedules\<close>: an event is a candidate, whose values at indices 3 and 4 are
  \<open>c_start\<close> and \<open>c_end\<close>. The inner loop has the state \<open>temp_schedule\<close> and
  \<open>last_end_time\<close>, the outer loop the state \<open>max_schedules_count\<close>.
\<close>

definition scan_step ::
  "candidate \<Rightarrow> candidate list \<times> timestamp option \<Rightarrow> candidate list \<times> timestamp option" where
  "scan_step event st =
     (case st of (temp_schedule, last_end_time) \<Rightarrow>
        let event_start_time = c_start event; event_end_time = c_end event in
        if (case last_end_time of None \<Rightarrow> True | Some l \<Rightarrow> event_start_time \<ge> l)
        then (temp_schedule @ [event], Some event_end_time)
        else (temp_schedule, last_end_time))"

definition count_step :: "nat \<Rightarrow> candidate list \<Rightarrow> nat \<Rightarrow> nat" where
  "count_step max_transit_count candidate_schedule max_schedules_count =
     (let (temp_schedule, last_end_time) = fold scan_step candidate_schedule ([], None) in
      if length temp_schedule = max_transit_count
      then max_schedules_count + 1 else max_schedules_count)"

definition count_max_schedules :: "candidate list list \<Rightarrow> slot list \<Rightarrow> nat" where
  "count_max_schedules all_schedules optimized_schedule_df =
     (let max_transit_count = length optimized_schedule_df in
      fold (count_step max_transit_count) all_schedules 0)"

section \<open>Notions used to state the properties\<close>

text \<open>
  The nine values that an entry of either output carries over unchanged from its input
  row: name, duration, midpoint, right ascension, declination, period, transit depth,
  mid-transit air mass and magnitude. They identify the event of an entry.
\<close>

type_synonym event = "string \<times> num \<times> timestamp \<times> num \<times> num \<times> num \<times> num \<times> num \<times> num"

definition row_event :: "row \<Rightarrow> event" where
  "row_event r =
     (planetname r, transitduration r, midpointcalendar r, ra r, dec r, period r,
      transitdepthcalc r, midpointairmass r, magnitude_k r)"

definition candidate_event :: "candidate \<Rightarrow> event" where
  "candidate_event i =
     (c_name i, c_duration i, c_midpoint i, c_ra i, c_dec i, c_period i,
      c_depth i, c_air_mass i, c_mag_k i)"

definition slot_event :: "slot \<Rightarrow> event" where
  "slot_event s =
     (c_name s, c_duration s, c_midpoint s, c_ra s, c_dec s, c_period s,
      c_depth s, c_air_mass s, c_mag_k s)"

definition cut_event :: "cut_entry \<Rightarrow> event" where
  "cut_event e =
     (x_name e, x_duration e, x_midpoint e, x_ra e, x_dec e, x_period e,
      x_depth e, x_air_mass e, x_mag_k e)"

text \<open>The test of line 279, and the schedule that the second loop builds from a given
  \<open>last_end_time\<close>, written as a recursion over the sorted candidates.\<close>

definition accepts :: "bool \<Rightarrow> timestamp option \<Rightarrow> candidate \<Rightarrow> bool" where
  "accepts s l x = (case l of None \<Rightarrow> True | Some t \<Rightarrow> schedule_start_time s x \<ge> t)"

fun greedy :: "bool \<Rightarrow> timestamp option \<Rightarrow> candidate list \<Rightarrow> candidate list" where
  "greedy s l [] = []"
| "greedy s l (x # xs) =
     (if accepts s l x then x # greedy s (Some (schedule_end_time s x)) xs else greedy s l xs)"

text \<open>
  The yardstick of the optimality property. The interval of an admitted event is the one
  that \<open>calculate_transit_times\<close> derived for it, from \<open>c_start\<close> to \<open>c_end\<close>, the setup
  buffer included when it is on. Two events do not overlap when one of them ends at or
  before the start of the other. A selection is feasible when it takes each admitted event
  at most as often as it was admitted and no two of its members overlap. An interval is
  proper when it starts strictly before it ends.
\<close>

definition compatible :: "candidate \<Rightarrow> candidate \<Rightarrow> bool" where
  "compatible a b = (c_end a \<le> c_start b \<or> c_end b \<le> c_start a)"

definition non_overlapping :: "candidate list \<Rightarrow> bool" where
  "non_overlapping sel = sorted_wrt compatible sel"

definition feasible :: "to_timedelta \<Rightarrow> config \<Rightarrow> dataframe \<Rightarrow> candidate list \<Rightarrow> bool" where
  "feasible td cfg df sel =
     (mset sel \<subseteq># mset (admitted td cfg df) \<and> non_overlapping sel)"

definition proper_intervals :: "candidate list \<Rightarrow> bool" where
  "proper_intervals xs = list_all (\<lambda>i. c_start i < c_end i) xs"

text \<open>
  The checks of the admission filter in the priority order of the specification, each with
  the cause it records, and the first of them that fails. The transit times exist only
  for a duration that is a number.
\<close>

definition transit_times ::
  "to_timedelta \<Rightarrow> config \<Rightarrow> row \<Rightarrow> (timestamp \<times> timestamp) option" where
  "transit_times td cfg r =
     map_option (\<lambda>d. calculate_transit_times td (midpointcalendar r) d (setup_time cfg))
       (transitduration r)"

definition admission_checks ::
  "to_timedelta \<Rightarrow> config \<Rightarrow> dataframe \<Rightarrow> row \<Rightarrow> (bool \<times> cause) list" where
  "admission_checks td cfg df r =
     (let ingress = (if has_ingressairmass df then ingressairmass r else None);
          egress = (if has_egressairmass df then egressairmass r else None)
      in
      [(isna (transitduration r), DurationNaN),
       (outside (period_limit cfg) (period r), PeriodLimit),
       (case (fst (time_window cfg), transit_times td cfg r) of
          (Some ws, Some (ts, te)) \<Rightarrow> ts < ws | _ \<Rightarrow> False, StartBeforeWindow),
       (case (snd (time_window cfg), transit_times td cfg r) of
          (Some we, Some (ts, te)) \<Rightarrow> te > we | _ \<Rightarrow> False, EndAfterWindow),
       (outside (magnitude_limit cfg) (magnitude_k r), MagnitudeLimit),
       (air_mass_lim cfg \<and> nan_gt (midpointairmass r) 2, AirMassLimit),
       (outside (transit_depth_limit cfg) (transitdepthcalc r), TransitDepthLimit),
       (\<not> nanignore_airmass cfg \<and> (isna ingress \<or> isna egress),
        if has_ingressairmass df \<and> has_egressairmass df
        then NaNIngressEgress else IngressEgressMissing),
       (nan_gt ingress (fst (max_airmass cfg)) \<or> nan_gt egress (snd (max_airmass cfg)),
        IngressEgressLimit)])"

definition first_failing :: "(bool \<times> cause) list \<Rightarrow> cause option" where
  "first_failing cs = map_option snd (find fst cs)"

definition rejection_cause ::
  "to_timedelta \<Rightarrow> config \<Rightarrow> dataframe \<Rightarrow> row \<Rightarrow> cause option" where
  "rejection_cause td cfg df r =
     (case filter_row td cfg df r of Inl e \<Rightarrow> Some (x_cause e) | Inr i \<Rightarrow> None)"

text \<open>The two checks against the time window, and the checks that follow them.\<close>

definition window_checks ::
  "timestamp option \<times> timestamp option \<Rightarrow> timestamp \<Rightarrow> timestamp \<Rightarrow> (bool \<times> cause) list" where
  "window_checks tw ts te =
     [(case fst tw of None \<Rightarrow> False | Some ws \<Rightarrow> ts < ws, StartBeforeWindow),
      (case snd tw of None \<Rightarrow> False | Some we \<Rightarrow> te > we, EndAfterWindow)]"

definition quality_checks ::
  "to_timedelta \<Rightarrow> config \<Rightarrow> dataframe \<Rightarrow> row \<Rightarrow> (bool \<times> cause) list" where
  "quality_checks td cfg df r = drop 4 (admission_checks td cfg df r)"

text \<open>A range whose maximum is below its minimum.\<close>

definition inverted :: "(rat \<times> rat) option \<Rightarrow> bool" where
  "inverted limit = (case limit of None \<Rightarrow> False | Some (lo, hi) \<Rightarrow> hi < lo)"

text \<open>
  The greedy forward scan as the specification words it: the events in the given order,
  an event accepted when no event was accepted yet or its start is at or after the last
  accepted end.
\<close>

fun forward_scan :: "timestamp option \<Rightarrow> candidate list \<Rightarrow> candidate list" where
  "forward_scan l [] = []"
| "forward_scan l (e # es) =
     (if l = None \<or> (case l of None \<Rightarrow> False | Some t \<Rightarrow> t \<le> c_start e)
      then e # forward_scan (Some (c_end e)) es
      else forward_scan l es)"

section \<open>Sample inputs\<close>

text \<open>
  A conversion to use on sample inputs: the whole nanoseconds of \<open>x\<close> hours, what is
  below a nanosecond being cut off. An hour has 3600000000000 nanoseconds. It is exact on
  the durations of the samples below whose halves are whole numbers of nanoseconds, and
  zero on half of the ten-trillionth of an hour.
\<close>

definition whole_ns :: to_timedelta where
  "whole_ns x =
     (if 0 \<le> x then of_int \<lfloor>x * 3600000000000\<rfloor> else of_int \<lceil>x * 3600000000000\<rceil>)
       / 3600000000000"

text \<open>
  The default configuration of the signature of \<open>optimize_schedule\<close>; a row with a given
  name, duration and midpoint whose other values pass every check; a table with both
  optional columns.
\<close>

definition default_config :: config where
  "default_config =
     \<lparr>magnitude_limit = Some (0, 29 / 2), air_mass_lim = True, setup_time = False,
      period_limit = None, transit_depth_limit = Some (0, 1 / 2), max_airmass = (2, 2),
      nanignore_airmass = False, time_window = (None, None)\<rparr>"

definition sample_row :: "string \<Rightarrow> num \<Rightarrow> timestamp \<Rightarrow> row" where
  "sample_row n d m =
     \<lparr>planetname = n, transitduration = d, midpointcalendar = m, ra = Some 0, dec = Some 0,
      period = Some 3, transitdepthcalc = Some (1 / 10), midpointairmass = Some 1,
      ingressairmass = Some 1, egressairmass = Some 1, magnitude_k = Some 10\<rparr>"

definition sample_frame :: "row list \<Rightarrow> dataframe" where
  "sample_frame rs = \<lparr>has_ingressairmass = True, has_egressairmass = True, rows = rs\<rparr>"

definition sample_candidate :: "string \<Rightarrow> rat \<Rightarrow> timestamp \<Rightarrow> timestamp \<Rightarrow> timestamp \<Rightarrow> candidate" where
  "sample_candidate n d m ts te =
     \<lparr>c_name = n, c_duration = Some d, c_midpoint = m, c_start = ts, c_end = te,
      c_ra = Some 0, c_dec = Some 0, c_period = Some 3, c_depth = Some (1 / 10),
      c_air_mass = Some 1, c_mag_k = Some 10\<rparr>"

text \<open>
  The three events of the specification's example, times in hours: A from 10 to 11,
  B from 10:30 to 11:30, C from 11 to 12.
\<close>

definition abc_frame :: dataframe where
  "abc_frame =
     sample_frame [sample_row ''A'' (Some 1) (21 / 2), sample_row ''B'' (Some 1) 11,
                   sample_row ''C'' (Some 1) (23 / 2)]"

text \<open>
  Two events that end at the same time 5: X of duration 0 at midpoint 5, listed first, and
  Y of duration 2 at midpoint 4.
\<close>

definition zero_width_frame :: dataframe where
  "zero_width_frame = sample_frame [sample_row ''X'' (Some 0) 5, sample_row ''Y'' (Some 2) 4]"

text \<open>A row that fails the magnitude check and the transit depth check.\<close>

definition two_failures_row :: row where
  "two_failures_row =
     (sample_row ''M'' (Some 1) 10)\<lparr>magnitude_k := Some 20, transitdepthcalc := Some 2\<rparr>"

text \<open>
  Two events an hour long with the setup buffer switched on: A at midpoint 10 and B at
  midpoint 12:15.
\<close>

definition buffered_config :: config where
  "buffered_config = default_config\<lparr>setup_time := True\<rparr>"

definition buffered_frame :: dataframe where
  "buffered_frame = sample_frame [sample_row ''A'' (Some 1) 10, sample_row ''B'' (Some 1) (49 / 4)]"

text \<open>
  A magnitude range whose maximum 1 is below its minimum 5, with an event P of magnitude
  10 and an event Q whose magnitude is NaN.
\<close>

definition inverted_config :: config where
  "inverted_config = default_config\<lparr>magnitude_limit := Some (5, 1)\<rparr>"

definition inverted_frame :: dataframe where
  "inverted_frame =
     sample_frame [sample_row ''P'' (Some 1) 10,
                   (sample_row ''Q'' (Some 1) 12)\<lparr>magnitude_k := None\<rparr>]"

text \<open>
  A time window from 10 to 12 with three events an hour long: A from 10 to 11, E from
  9:15 to 10:15 and L from 11:30 to 12:30.
\<close>

definition window_config :: config where
  "window_config = default_config\<lparr>time_window := (Some 10, Some 12)\<rparr>"

definition window_frame :: dataframe where
  "window_frame =
     sample_frame [sample_row ''A'' (Some 1) (21 / 2), sample_row ''E'' (Some 1) (39 / 4),
                   sample_row ''L'' (Some 1) 12]"

text \<open>Three candidate schedules over the events A, B and C of the example.\<close>

definition abc_candidates :: "candidate list list" where
  "abc_candidates =
     [[sample_candidate ''A'' 1 (21 / 2) 10 11, sample_candidate ''B'' 1 11 (21 / 2) (23 / 2),
       sample_candidate ''C'' 1 (23 / 2) 11 12],
      [sample_candidate ''B'' 1 11 (21 / 2) (23 / 2), sample_candidate ''A'' 1 (21 / 2) 10 11],
      [sample_candidate ''A'' 1 (21 / 2) 10 11, sample_candidate ''C'' 1 (23 / 2) 11 12]]"

text \<open>
  An event N of duration minus three hours at midpoint 6:30, which runs from 8 back to
  5, and an event A of four hours at midpoint 8, from 6 to 10.
\<close>

definition negative_frame :: dataframe where
  "negative_frame =
     sample_frame [sample_row ''N'' (Some (- 3)) (13 / 2), sample_row ''A'' (Some 4) 8]"

text \<open>The event P of magnitude 10 alone.\<close>

definition numeric_frame :: dataframe where
  "numeric_frame = sample_frame [sample_row ''P'' (Some 1) 10]"

section \<open>Lemmas on the two loops\<close>

lemma cut_event_without_times [simp]: "cut_event (without_times r c) = row_event r"
  by (simp add: cut_event_def without_times_def row_event_def)

lemma cut_event_with_cause [simp]: "cut_event (with_cause i c) = candidate_event i"
  by (simp add: cut_event_def with_cause_def candidate_event_def)

lemma slot_event_add [simp]: "slot_event (add_schedule_columns s i) = candidate_event i"
  by (simp add: slot_event_def add_schedule_columns_def candidate_event_def candidate.defs)

lemma filter_row_event:
  "(case filter_row td cfg df r of Inl e \<Rightarrow> cut_event e | Inr i \<Rightarrow> candidate_event i) = row_event r"
  by (simp add: filter_row_def Let_def candidate_event_def row_event_def
           split: option.split prod.split)

lemma admission_step_Inl:
  "filter_row td cfg df r = Inl e \<Longrightarrow> admission_step td cfg df r (v, c) = (v, c @ [e])"
  by (simp add: admission_step_def)

lemma admission_step_Inr:
  "filter_row td cfg df r = Inr i \<Longrightarrow> admission_step td cfg df r (v, c) = (v @ [i], c)"
  by (simp add: admission_step_def)

lemma schedule_step_accept:
  "accepts s l x \<Longrightarrow>
   schedule_step s x (opt, l, c) = (opt @ [x], Some (schedule_end_time s x), c)"
  by (simp add: schedule_step_def accepts_def)

lemma schedule_step_reject:
  "\<not> accepts s l x \<Longrightarrow>
   schedule_step s x (opt, l, c) = (opt, l, c @ [with_cause x Overlapping])"
  by (simp add: schedule_step_def accepts_def)

lemma admission_fold_events:
  "fold (admission_step td cfg df) rs (v, c) = (v', c') \<Longrightarrow>
   mset (map row_event rs) + mset (map candidate_event v) + mset (map cut_event c)
     = mset (map candidate_event v') + mset (map cut_event c')"
proof (induction rs arbitrary: v c)
  case Nil
  then show ?case by simp
next
  case (Cons r rs)
  show ?case
  proof (cases "filter_row td cfg df r")
    case (Inl e)
    with Cons.prems have "fold (admission_step td cfg df) rs (v, c @ [e]) = (v', c')"
      by (simp add: admission_step_Inl)
    from Cons.IH [OF this] filter_row_event [of td cfg df r] Inl show ?thesis by simp
  next
    case (Inr i)
    with Cons.prems have "fold (admission_step td cfg df) rs (v @ [i], c) = (v', c')"
      by (simp add: admission_step_Inr)
    from Cons.IH [OF this] filter_row_event [of td cfg df r] Inr show ?thesis by simp
  qed
qed

lemma schedule_fold_events:
  "fold (schedule_step s) xs (opt, l, c) = (opt', l', c') \<Longrightarrow>
   mset (map candidate_event xs) + mset (map candidate_event opt) + mset (map cut_event c)
     = mset (map candidate_event opt') + mset (map cut_event c')"
proof (induction xs arbitrary: opt l c)
  case Nil
  then show ?case by simp
next
  case (Cons x xs)
  show ?case
  proof (cases "accepts s l x")
    case True
    with Cons.prems
    have "fold (schedule_step s) xs (opt @ [x], Some (schedule_end_time s x), c) = (opt', l', c')"
      by (simp add: schedule_step_accept)
    from Cons.IH [OF this] show ?thesis by simp
  next
    case False
    with Cons.prems
    have "fold (schedule_step s) xs (opt, l, c @ [with_cause x Overlapping]) = (opt', l', c')"
      by (simp add: schedule_step_reject)
    from Cons.IH [OF this] show ?thesis by simp
  qed
qed

lemma schedule_fold_greedy:
  "fst (fold (schedule_step s) xs (opt, l, c)) = opt @ greedy s l xs"
proof (induction xs arbitrary: opt l c)
  case Nil
  show ?case by simp
next
  case (Cons x xs)
  show ?case
  proof (cases "accepts s l x")
    case True
    then show ?thesis using Cons.IH by (simp add: schedule_step_accept)
  next
    case False
    then show ?thesis using Cons.IH by (simp add: schedule_step_reject)
  qed
qed

lemma optimize_schedule_tables_greedy:
  "fst (optimize_schedule_tables td sort_values cfg df)
     = map (add_schedule_columns (setup_time cfg))
         (greedy (setup_time cfg) None (sort_values (admitted td cfg df)))"
proof -
  obtain v c where vc: "admission_loop td cfg df = (v, c)" by (cases "admission_loop td cfg df")
  obtain opt l c' where f: "fold (schedule_step (setup_time cfg)) (sort_values v) ([], None, c) = (opt, l, c')"
    by (cases "fold (schedule_step (setup_time cfg)) (sort_values v) ([], None, c)")
  from f have "opt = greedy (setup_time cfg) None (sort_values v)"
    using schedule_fold_greedy [of "setup_time cfg" "sort_values v" "[]" None c] by simp
  with vc f show ?thesis by (simp add: optimize_schedule_tables_def admitted_def)
qed

lemma greedy_head_accepted: "greedy s l xs = y # ys \<Longrightarrow> accepts s l y"
  by (induction xs arbitrary: l) (auto split: if_splits)

lemma greedy_adjacent:
  "successively (\<lambda>a b. schedule_end_time s a \<le> schedule_start_time s b) (greedy s l xs)"
proof (induction xs arbitrary: l)
  case Nil
  show ?case by simp
next
  case (Cons x xs)
  show ?case
  proof (cases "accepts s l x")
    case True
    have "greedy s (Some (schedule_end_time s x)) xs = [] \<or>
          schedule_end_time s x \<le> schedule_start_time s (hd (greedy s (Some (schedule_end_time s x)) xs))"
    proof (cases "greedy s (Some (schedule_end_time s x)) xs")
      case Nil
      then show ?thesis by simp
    next
      case (Cons y ys)
      from greedy_head_accepted [OF this] Cons show ?thesis by (simp add: accepts_def)
    qed
    with True Cons.IH [of "Some (schedule_end_time s x)"] show ?thesis
      by (auto simp: successively_Cons)
  next
    case False
    with Cons.IH [of l] show ?thesis by simp
  qed
qed

lemma successively_nth:
  "successively P xs \<longleftrightarrow> (\<forall>i. Suc i < length xs \<longrightarrow> P (xs ! i) (xs ! Suc i))"
proof (induction P xs rule: successively.induct)
  case (3 P x y xs)
  show ?case
  proof
    assume a: "successively P (x # y # xs)"
    show "\<forall>i. Suc i < length (x # y # xs) \<longrightarrow> P ((x # y # xs) ! i) ((x # y # xs) ! Suc i)"
    proof (intro allI impI)
      fix i assume "Suc i < length (x # y # xs)"
      with a 3 show "P ((x # y # xs) ! i) ((x # y # xs) ! Suc i)"
        by (cases i) auto
    qed
  next
    assume a: "\<forall>i. Suc i < length (x # y # xs) \<longrightarrow> P ((x # y # xs) ! i) ((x # y # xs) ! Suc i)"
    from a [rule_format, of 0] have "P x y" by simp
    moreover have "\<forall>i. Suc i < length (y # xs) \<longrightarrow> P ((y # xs) ! i) ((y # xs) ! Suc i)"
    proof (intro allI impI)
      fix i assume "Suc i < length (y # xs)"
      with a [rule_format, of "Suc i"] show "P ((y # xs) ! i) ((y # xs) ! Suc i)" by simp
    qed
    ultimately show "successively P (x # y # xs)" using 3 by simp
  qed
qed simp_all

lemma add_columns_start [simp]:
  "schedule_start (add_schedule_columns s i) = schedule_start_time s i"
  by (simp add: add_schedule_columns_def candidate.defs)

lemma add_columns_end [simp]:
  "schedule_end (add_schedule_columns s i) = schedule_end_time s i"
  by (simp add: add_schedule_columns_def candidate.defs)

lemma truncate_add_columns [simp]:
  "candidate.truncate (add_schedule_columns s i) = i"
  by (simp add: add_schedule_columns_def candidate.defs)

lemma schedule_successively:
  "successively (\<lambda>a b. schedule_end a \<le> schedule_start b) (fst (optimize_schedule_tables td sort_values cfg df))"
  using greedy_adjacent [of "setup_time cfg" None "sort_values (admitted td cfg df)"]
  by (simp add: optimize_schedule_tables_greedy successively_map)

lemma subset_add_mset_notin:
  assumes "A \<subseteq># add_mset x B" and "x \<notin># A"
  shows "A \<subseteq># B"
proof (rule mset_subset_eqI)
  fix a
  show "count A a \<le> count B a"
    using mset_subset_eq_count [OF assms(1), of a] assms(2)
    by (cases "a = x") (auto simp: not_in_iff)
qed

lemma greedy_mset: "mset (greedy s l xs) \<subseteq># mset xs"
proof (induction xs arbitrary: l)
  case Nil
  show ?case by simp
next
  case (Cons x xs)
  show ?case
  proof (cases "accepts s l x")
    case True
    with Cons.IH [of "Some (schedule_end_time s x)"] show ?thesis
      by simp
  next
    case False
    have "mset xs \<subseteq># mset (x # xs)" by simp
    with False Cons.IH [of l] show ?thesis
      using subset_mset.trans [of "mset (greedy s l xs)" "mset xs" "mset (x # xs)"] by simp
  qed
qed

lemma greedy_chain:
  assumes "\<forall>x\<in>set xs. schedule_start_time s x \<le> schedule_end_time s x"
  shows "sorted_wrt (\<lambda>a b. schedule_end_time s a \<le> schedule_start_time s b) (greedy s l xs)
         \<and> (\<forall>y\<in>set (greedy s l xs). accepts s l y)"
  using assms
proof (induction xs arbitrary: l)
  case Nil
  show ?case by simp
next
  case (Cons x xs)
  show ?case
  proof (cases "accepts s l x")
    case True
    from Cons.prems have p: "\<forall>x\<in>set xs. schedule_start_time s x \<le> schedule_end_time s x"
      and px: "schedule_start_time s x \<le> schedule_end_time s x" by simp_all
    from Cons.IH [OF p, of "Some (schedule_end_time s x)"]
    have ih1: "sorted_wrt (\<lambda>a b. schedule_end_time s a \<le> schedule_start_time s b)
                (greedy s (Some (schedule_end_time s x)) xs)"
      and ih2: "\<forall>y\<in>set (greedy s (Some (schedule_end_time s x)) xs).
                 schedule_end_time s x \<le> schedule_start_time s y"
      by (simp_all add: accepts_def)
    have "\<forall>y\<in>set (greedy s (Some (schedule_end_time s x)) xs). accepts s l y"
    proof
      fix y assume "y \<in> set (greedy s (Some (schedule_end_time s x)) xs)"
      with ih2 have "schedule_end_time s x \<le> schedule_start_time s y" by simp
      with px True show "accepts s l y"
        by (auto simp: accepts_def split: option.splits)
    qed
    with True ih1 ih2 show ?thesis by simp
  next
    case False
    with Cons.IH [of l] Cons.prems show ?thesis by simp
  qed
qed

lemma at_most_one_straddles:
  assumes "sorted_wrt (\<lambda>a b. schedule_end_time s a \<le> schedule_start_time s b
                       \<or> schedule_end_time s b \<le> schedule_start_time s a) ys"
    and "\<forall>a\<in>set ys. schedule_start_time s a < t \<and> t \<le> schedule_end_time s a"
  shows "length ys \<le> 1"
proof (cases ys)
  case Nil
  then show ?thesis by simp
next
  case (Cons a as)
  show ?thesis
  proof (cases as)
    case Nil
    with Cons show ?thesis by simp
  next
    case (Cons b bs)
    with \<open>ys = a # as\<close> assms
    have "schedule_end_time s a \<le> schedule_start_time s b
          \<or> schedule_end_time s b \<le> schedule_start_time s a"
      and "schedule_start_time s a < t" "t \<le> schedule_end_time s a"
      and "schedule_start_time s b < t" "t \<le> schedule_end_time s b"
      by simp_all
    then have False by auto
    then show ?thesis ..
  qed
qed

lemma greedy_optimal_from:
  assumes "sorted (map c_end xs)"
    and "\<forall>x\<in>set xs. schedule_start_time s x < schedule_end_time s x"
    and "mset sel \<subseteq># mset xs"
    and "sorted_wrt (\<lambda>a b. schedule_end_time s a \<le> schedule_start_time s b
                       \<or> schedule_end_time s b \<le> schedule_start_time s a) sel"
    and "\<forall>a\<in>set sel. accepts s l a"
  shows "length sel \<le> length (greedy s l xs)"
  using assms
proof (induction xs arbitrary: l sel)
  case Nil
  then show ?case by simp
next
  case (Cons x xs)
  from Cons.prems have sorted_xs: "sorted (map c_end xs)"
    and proper_xs: "\<forall>x\<in>set xs. schedule_start_time s x < schedule_end_time s x"
    and proper_x: "schedule_start_time s x < schedule_end_time s x"
    and first_end: "\<forall>y\<in>set xs. c_end x \<le> c_end y"
    by simp_all
  show ?case
  proof (cases "accepts s l x")
    case False
    with Cons.prems(5) have "x \<notin> set sel" by auto
    with Cons.prems(3) have "mset sel \<subseteq># mset xs"
      by (simp add: subset_add_mset_notin)
    from Cons.IH [OF sorted_xs proper_xs this Cons.prems(4) Cons.prems(5)] False
    show ?thesis by simp
  next
    case True
    let ?t = "schedule_end_time s x"
    let ?late = "filter (\<lambda>a. ?t \<le> schedule_start_time s a) sel"
    let ?early = "filter (\<lambda>a. \<not> ?t \<le> schedule_start_time s a) sel"
    have sel_in: "set sel \<subseteq> set (x # xs)"
      using Cons.prems(3) by (metis set_mset_mono set_mset_mset)
    have ends: "\<forall>a\<in>set sel. ?t \<le> schedule_end_time s a"
    proof
      fix a assume "a \<in> set sel"
      with sel_in first_end have "c_end x \<le> c_end a" by auto
      then show "?t \<le> schedule_end_time s a" by (simp add: schedule_end_time_def)
    qed
    have "length ?early \<le> 1"
    proof (rule at_most_one_straddles)
      show "sorted_wrt (\<lambda>a b. schedule_end_time s a \<le> schedule_start_time s b
                       \<or> schedule_end_time s b \<le> schedule_start_time s a) ?early"
        using Cons.prems(4) by (rule sorted_wrt_filter)
      show "\<forall>a\<in>set ?early. schedule_start_time s a < ?t \<and> ?t \<le> schedule_end_time s a"
        using ends by auto
    qed
    moreover have "length ?late \<le> length (greedy s (Some ?t) xs)"
    proof (rule Cons.IH [OF sorted_xs proper_xs])
      have "x \<notin> set ?late" using proper_x by simp
      moreover have "mset ?late \<subseteq># mset (x # xs)"
      proof -
        have "mset ?late \<subseteq># mset sel" by (simp only: mset_filter multiset_filter_subset)
        with Cons.prems(3) show ?thesis by (rule subset_mset.trans [rotated])
      qed
      ultimately show "mset ?late \<subseteq># mset xs"
        by (simp add: subset_add_mset_notin)
      show "sorted_wrt (\<lambda>a b. schedule_end_time s a \<le> schedule_start_time s b
                       \<or> schedule_end_time s b \<le> schedule_start_time s a) ?late"
        using Cons.prems(4) by (rule sorted_wrt_filter)
      show "\<forall>a\<in>set ?late. accepts s (Some ?t) a"
        by (simp add: accepts_def)
    qed
    moreover have "length sel = length ?late + length ?early"
      by (rule sum_length_filter_compl [symmetric])
    ultimately show ?thesis using True by simp
  qed
qed

lemma sort_key_sorts_by_end: "sorts_by_end (sort_key c_end) xs"
  by (simp add: sorts_by_end_def)

lemma sorts_by_end_set: "sorts_by_end sort_values xs \<Longrightarrow> set (sort_values xs) = set xs"
  by (auto simp: sorts_by_end_def dest: mset_eq_setD)

lemma first_failing_simps:
  "first_failing [] = None"
  "first_failing ((b, c) # cs) = (if b then Some c else first_failing cs)"
  by (simp_all add: first_failing_def)

lemma admission_causes_distinct: "distinct (map snd (admission_checks td cfg df r))"
  by (simp add: admission_checks_def Let_def)

lemma first_failing_earliest:
  assumes "distinct (map snd cs)" and "i < j" and "j < length cs" and "fst (cs ! i)"
  shows "first_failing cs \<noteq> Some (snd (cs ! j))
         \<and> (\<exists>k\<le>i. fst (cs ! k) \<and> first_failing cs = Some (snd (cs ! k)))"
  using assms
proof (induction cs arbitrary: i j)
  case Nil
  then show ?case by simp
next
  case (Cons p cs)
  obtain b c where p: "p = (b, c)" by (cases p)
  show ?case
  proof (cases b)
    case True
    from Cons.prems(2,3) obtain j' where j: "j = Suc j'" and j': "j' < length cs"
      by (cases j) auto
    from Cons.prems(1) p j j' have "c \<noteq> snd (cs ! j')"
      by (metis distinct.simps(2) length_map list.simps(9) nth_map nth_mem snd_conv)
    with True p j show ?thesis by (auto simp: first_failing_simps)
  next
    case False
    with Cons.prems(4) p obtain i' where i: "i = Suc i'" by (cases i) auto
    with Cons.prems(2,3) obtain j' where j: "j = Suc j'" and j': "j' < length cs" and ij: "i' < j'"
      by (cases j) auto
    from Cons.prems(1) have d: "distinct (map snd cs)" by simp
    from Cons.prems(4) i have f: "fst (cs ! i')" by simp
    from Cons.IH [OF d ij j' f] obtain k where "k \<le> i'" "fst (cs ! k)"
      "first_failing cs = Some (snd (cs ! k))" and ne: "first_failing cs \<noteq> Some (snd (cs ! j'))"
      by blast
    then have "Suc k \<le> i \<and> fst ((p # cs) ! Suc k) \<and> first_failing (p # cs) = Some (snd ((p # cs) ! Suc k))"
      using False p i by (simp add: first_failing_simps)
    moreover from ne False p j have "first_failing (p # cs) \<noteq> Some (snd ((p # cs) ! j))"
      by (simp add: first_failing_simps)
    ultimately show ?thesis by blast
  qed
qed

lemma not_isna_gt: "(\<not> isna x \<and> nan_gt x b) = nan_gt x b"
  by (cases x) (simp_all add: isna_def nan_gt_def)

lemma first_failing_append:
  "first_failing (xs @ ys)
     = (case first_failing xs of Some c \<Rightarrow> Some c | None \<Rightarrow> first_failing ys)"
  by (induction xs) (auto simp: first_failing_simps)

lemma cause_of_entry [simp]:
  "x_cause (without_times r c) = c" "x_cause (with_cause i c) = c"
  by (simp_all add: without_times_def with_cause_def)

lemma window_cause_first_failing:
  "window_cause tw ts te = first_failing (window_checks tw ts te)"
  by (cases tw) (simp add: window_cause_def window_checks_def first_failing_simps)

lemma quality_cause_first_failing:
  "quality_cause cfg df r = first_failing (quality_checks td cfg df r)"
proof -
  obtain mi me where ma: "max_airmass cfg = (mi, me)" by (cases "max_airmass cfg")
  define ing where "ing = (if has_ingressairmass df then ingressairmass r else None)"
  define egr where "egr = (if has_egressairmass df then egressairmass r else None)"
  have q: "quality_cause cfg df r =
     (if outside (magnitude_limit cfg) (magnitude_k r) then Some MagnitudeLimit
      else if air_mass_lim cfg \<and> nan_gt (midpointairmass r) 2 then Some AirMassLimit
      else if outside (transit_depth_limit cfg) (transitdepthcalc r) then Some TransitDepthLimit
      else if \<not> nanignore_airmass cfg \<and> (isna ing \<or> isna egr)
      then (if has_ingressairmass df \<and> has_egressairmass df
            then Some NaNIngressEgress else Some IngressEgressMissing)
      else if (\<not> isna ing \<and> nan_gt ing mi) \<or> (\<not> isna egr \<and> nan_gt egr me)
      then Some IngressEgressLimit
      else None)"
    unfolding quality_cause_def Let_def ma ing_def egr_def by simp
  have c: "quality_checks td cfg df r =
     [(outside (magnitude_limit cfg) (magnitude_k r), MagnitudeLimit),
      (air_mass_lim cfg \<and> nan_gt (midpointairmass r) 2, AirMassLimit),
      (outside (transit_depth_limit cfg) (transitdepthcalc r), TransitDepthLimit),
      (\<not> nanignore_airmass cfg \<and> (isna ing \<or> isna egr),
       if has_ingressairmass df \<and> has_egressairmass df
       then NaNIngressEgress else IngressEgressMissing),
      (nan_gt ing mi \<or> nan_gt egr me, IngressEgressLimit)]"
    unfolding quality_checks_def admission_checks_def Let_def ma ing_def egr_def by simp
  show ?thesis
    unfolding q c by (simp add: first_failing_simps not_isna_gt)
qed

lemma filter_row_cause:
  assumes "transitduration r = Some d"
    and "calculate_transit_times td (midpointcalendar r) d (setup_time cfg) = (ts, te)"
  shows "rejection_cause td cfg df r =
     (if outside (period_limit cfg) (period r) then Some PeriodLimit
      else case window_cause (time_window cfg) ts te of
             Some c \<Rightarrow> Some c
           | None \<Rightarrow> quality_cause cfg df r)"
  using assms
  by (simp add: rejection_cause_def filter_row_def Let_def split: option.split)

lemma admission_checks_split:
  assumes "transitduration r = Some d"
    and "calculate_transit_times td (midpointcalendar r) d (setup_time cfg) = (ts, te)"
  shows "admission_checks td cfg df r =
     [(False, DurationNaN), (outside (period_limit cfg) (period r), PeriodLimit)]
     @ window_checks (time_window cfg) ts te @ quality_checks td cfg df r"
  using assms
  by (simp add: quality_checks_def admission_checks_def window_checks_def transit_times_def
      isna_def Let_def split: option.split)

lemma rejection_cause_first_failing:
  "rejection_cause td cfg df r = first_failing (admission_checks td cfg df r)"
proof (cases "transitduration r")
  case None
  then show ?thesis
    by (simp add: rejection_cause_def filter_row_def admission_checks_def first_failing_simps
        isna_def Let_def)
next
  case (Some d)
  obtain ts te where tt: "calculate_transit_times td (midpointcalendar r) d (setup_time cfg) = (ts, te)"
    by (cases "calculate_transit_times td (midpointcalendar r) d (setup_time cfg)")
  show ?thesis
    unfolding filter_row_cause [OF Some tt] admission_checks_split [OF Some tt]
      window_cause_first_failing quality_cause_first_failing [where td = td]
    by (simp add: first_failing_simps first_failing_append)
qed

lemma scan_fold_forward:
  "fst (fold scan_step es (acc, l)) = acc @ forward_scan l es"
proof (induction es arbitrary: acc l)
  case Nil
  show ?case by simp
next
  case (Cons e es)
  show ?case
  proof (cases l)
    case None
    then show ?thesis using Cons.IH by (simp add: scan_step_def)
  next
    case (Some t)
    then show ?thesis using Cons.IH by (simp add: scan_step_def)
  qed
qed

lemma count_step_forward:
  "count_step n c k = (if length (forward_scan None c) = n then k + 1 else k)"
proof -
  obtain t l where f: "fold scan_step c ([], None) = (t, l)"
    by (cases "fold scan_step c ([], None)")
  with scan_fold_forward [of c "[]" None] have "t = forward_scan None c" by simp
  with f show ?thesis by (simp add: count_step_def)
qed

lemma count_fold_filter:
  "fold (count_step n) cs k = k + length (filter (\<lambda>c. length (forward_scan None c) = n) cs)"
  by (induction cs arbitrary: k) (simp_all add: count_step_forward)

lemma events_partition:
  assumes "sorts_by_end sort_values (admitted td cfg df)"
  shows "mset (map row_event (rows df))
           = mset (map slot_event (fst (optimize_schedule_tables td sort_values cfg df)))
             + mset (map cut_event (snd (optimize_schedule_tables td sort_values cfg df)))"
proof -
  obtain v c where vc: "admission_loop td cfg df = (v, c)" by (cases "admission_loop td cfg df")
  obtain opt l c' where f: "fold (schedule_step (setup_time cfg)) (sort_values v) ([], None, c) = (opt, l, c')"
    by (cases "fold (schedule_step (setup_time cfg)) (sort_values v) ([], None, c)")
  from vc have a: "mset (map row_event (rows df)) = mset (map candidate_event v) + mset (map cut_event c)"
    using admission_fold_events [of td cfg df "rows df" "[]" "[]" v c]
    by (simp add: admission_loop_def)
  from assms vc have "mset (sort_values v) = mset v"
    by (simp add: sorts_by_end_def admitted_def)
  then have "mset (map candidate_event (sort_values v)) = mset (map candidate_event v)"
    by (metis mset_map)
  with schedule_fold_events [OF f]
  have b: "mset (map candidate_event v) + mset (map cut_event c)
            = mset (map candidate_event opt) + mset (map cut_event c')"
    by simp
  have "slot_event \<circ> add_schedule_columns (setup_time cfg) = candidate_event"
    by (rule ext) simp
  with a b vc f show ?thesis
    by (simp add: optimize_schedule_tables_def)
qed

lemma admission_fold_sets:
  "fold (admission_step td cfg df) rs (v, c) = (v', c') \<Longrightarrow>
   set v' \<subseteq> set v \<union> {i. \<exists>r\<in>set rs. filter_row td cfg df r = Inr i}
   \<and> set c' \<subseteq> set c \<union> {e. \<exists>r\<in>set rs. filter_row td cfg df r = Inl e}"
proof (induction rs arbitrary: v c)
  case Nil
  then show ?case by simp
next
  case (Cons r rs)
  show ?case
  proof (cases "filter_row td cfg df r")
    case (Inl e)
    with Cons.prems have "fold (admission_step td cfg df) rs (v, c @ [e]) = (v', c')"
      by (simp add: admission_step_Inl)
    from Cons.IH [OF this] Inl show ?thesis by auto
  next
    case (Inr i)
    with Cons.prems have "fold (admission_step td cfg df) rs (v @ [i], c) = (v', c')"
      by (simp add: admission_step_Inr)
    from Cons.IH [OF this] Inr show ?thesis by auto
  qed
qed

lemma schedule_fold_cuts:
  "fold (schedule_step s) xs (opt, l, c) = (opt', l', c') \<Longrightarrow>
   set c' \<subseteq> set c \<union> {with_cause x Overlapping | x. x \<in> set xs}"
proof (induction xs arbitrary: opt l c)
  case Nil
  then show ?case by simp
next
  case (Cons x xs)
  show ?case
  proof (cases "accepts s l x")
    case True
    with Cons.prems
    have "fold (schedule_step s) xs (opt @ [x], Some (schedule_end_time s x), c) = (opt', l', c')"
      by (simp add: schedule_step_accept)
    from Cons.IH [OF this] show ?thesis by auto
  next
    case False
    with Cons.prems
    have "fold (schedule_step s) xs (opt, l, c @ [with_cause x Overlapping]) = (opt', l', c')"
      by (simp add: schedule_step_reject)
    from Cons.IH [OF this] show ?thesis by auto
  qed
qed

lemma cut_list_origin:
  assumes "e \<in> set (snd (optimize_schedule_tables td sort_values cfg df))"
  shows "(\<exists>r\<in>set (rows df). filter_row td cfg df r = Inl e) \<or> (\<exists>x. e = with_cause x Overlapping)"
proof -
  obtain v c where vc: "admission_loop td cfg df = (v, c)" by (cases "admission_loop td cfg df")
  obtain opt l c' where f: "fold (schedule_step (setup_time cfg)) (sort_values v) ([], None, c) = (opt, l, c')"
    by (cases "fold (schedule_step (setup_time cfg)) (sort_values v) ([], None, c)")
  from vc f assms have "e \<in> set c'" by (simp add: optimize_schedule_tables_def)
  with schedule_fold_cuts [OF f] have "e \<in> set c \<or> (\<exists>x. e = with_cause x Overlapping)"
    by auto
  moreover from vc have "set c \<subseteq> {e. \<exists>r\<in>set (rows df). filter_row td cfg df r = Inl e}"
    using admission_fold_sets [of td cfg df "rows df" "[]" "[]" v c]
    by (simp add: admission_loop_def)
  ultimately show ?thesis by auto
qed

lemma admitted_origin:
  assumes "i \<in> set (admitted td cfg df)"
  shows "\<exists>r\<in>set (rows df). filter_row td cfg df r = Inr i"
proof -
  obtain v c where vc: "admission_loop td cfg df = (v, c)" by (cases "admission_loop td cfg df")
  then have "set v \<subseteq> {i. \<exists>r\<in>set (rows df). filter_row td cfg df r = Inr i}"
    using admission_fold_sets [of td cfg df "rows df" "[]" "[]" v c]
    by (simp add: admission_loop_def)
  with vc assms show ?thesis by (auto simp: admitted_def)
qed

lemma quality_cause_not_window:
  "quality_cause cfg df r = Some c \<Longrightarrow> c \<noteq> StartBeforeWindow \<and> c \<noteq> EndAfterWindow"
  unfolding quality_cause_first_failing [where td = "\<lambda>x. x"]
  by (cases "max_airmass cfg")
     (auto simp: quality_checks_def admission_checks_def Let_def first_failing_simps
           split: if_splits)

lemma times_of_entry [simp]:
  "x_start (without_times r c) = None" "x_end (without_times r c) = None"
  by (simp_all add: without_times_def)

lemma filter_row_window_entry:
  assumes "filter_row td cfg df r = Inl e"
    and "x_cause e = StartBeforeWindow \<or> x_cause e = EndAfterWindow"
  shows "x_start e = None \<and> x_end e = None"
proof (cases "transitduration r")
  case None
  with assms show ?thesis by (auto simp: filter_row_def Let_def)
next
  case (Some d)
  obtain ts te where tt: "calculate_transit_times td (midpointcalendar r) d (setup_time cfg) = (ts, te)"
    by (cases "calculate_transit_times td (midpointcalendar r) d (setup_time cfg)")
  show ?thesis
  proof (cases "outside (period_limit cfg) (period r)")
    case True
    with Some assms show ?thesis by (auto simp: filter_row_def Let_def)
  next
    case False
    show ?thesis
    proof (cases "window_cause (time_window cfg) ts te")
      case (Some c)
      with False \<open>transitduration r = Some d\<close> tt assms show ?thesis
        by (auto simp: filter_row_def Let_def)
    next
      case None
      show ?thesis
      proof (cases "quality_cause cfg df r")
        case None
        with \<open>window_cause (time_window cfg) ts te = None\<close> False
          \<open>transitduration r = Some d\<close> tt assms
        show ?thesis by (simp add: filter_row_def Let_def)
      next
        case (Some c)
        with \<open>window_cause (time_window cfg) ts te = None\<close> False
          \<open>transitduration r = Some d\<close> tt assms(1)
        have "x_cause e = c" by (auto simp: filter_row_def Let_def)
        with quality_cause_not_window [OF Some] assms(2) show ?thesis by simp
      qed
    qed
  qed
qed

lemma inverted_outside:
  "inverted limit \<Longrightarrow> \<not> outside limit v \<Longrightarrow> v = None"
  by (cases limit; cases v) (auto simp: inverted_def outside_def nan_lt_def nan_gt_def)

lemma filter_row_admitted_limits:
  assumes "filter_row td cfg df r = Inr i"
  shows "\<not> outside (period_limit cfg) (c_period i)
         \<and> \<not> outside (magnitude_limit cfg) (c_mag_k i)
         \<and> \<not> outside (transit_depth_limit cfg) (c_depth i)"
proof (cases "transitduration r")
  case None
  with assms show ?thesis by (simp add: filter_row_def Let_def)
next
  case (Some d)
  obtain ts te where tt: "calculate_transit_times td (midpointcalendar r) d (setup_time cfg) = (ts, te)"
    by (cases "calculate_transit_times td (midpointcalendar r) d (setup_time cfg)")
  from assms Some tt have p: "\<not> outside (period_limit cfg) (period r)"
    and q: "quality_cause cfg df r = None"
    and i: "c_period i = period r" "c_mag_k i = magnitude_k r" "c_depth i = transitdepthcalc r"
    by (auto simp: filter_row_def Let_def split: if_splits option.splits)
  from q have "\<not> outside (magnitude_limit cfg) (magnitude_k r)
               \<and> \<not> outside (transit_depth_limit cfg) (transitdepthcalc r)"
    unfolding quality_cause_first_failing [where td = td]
    by (cases "max_airmass cfg")
       (auto simp: quality_checks_def admission_checks_def Let_def first_failing_simps
             split: if_splits)
  with p i show ?thesis by simp
qed

lemma scheduled_admitted:
  assumes "sorts_by_end sort_values (admitted td cfg df)"
    and "s \<in> set (fst (optimize_schedule_tables td sort_values cfg df))"
  shows "\<exists>i\<in>set (admitted td cfg df). s = add_schedule_columns (setup_time cfg) i"
proof -
  from assms(2) obtain i
    where i: "i \<in> set (greedy (setup_time cfg) None (sort_values (admitted td cfg df)))"
      and s: "s = add_schedule_columns (setup_time cfg) i"
    by (auto simp: optimize_schedule_tables_greedy)
  have "set (greedy (setup_time cfg) None (sort_values (admitted td cfg df)))
          \<subseteq> set (sort_values (admitted td cfg df))"
    using greedy_mset [of "setup_time cfg" None "sort_values (admitted td cfg df)"]
    by (metis set_mset_mono set_mset_mset)
  with i sorts_by_end_set [OF assms(1)] s show ?thesis by auto
qed

lemma add_columns_fields [simp]:
  "c_period (add_schedule_columns s i) = c_period i"
  "c_mag_k (add_schedule_columns s i) = c_mag_k i"
  "c_depth (add_schedule_columns s i) = c_depth i"
  by (simp_all add: add_schedule_columns_def candidate.defs)

text \<open>
  The setup buffer: it moves the start and the end that \<open>calculate_transit_times\<close> returns
  by thirty minutes each, it enters no check other than the time window, and with the
  buffer on the overlap test works on the midpoint minus and plus one hour and the
  timedelta of half the duration.
\<close>

lemma buffer_shift:
  "fst (calculate_transit_times td m d True) = fst (calculate_transit_times td m d False) - 1 / 2
   \<and> snd (calculate_transit_times td m d True) = snd (calculate_transit_times td m d False) + 1 / 2"
  by (simp add: calculate_transit_times_def)

lemma buffer_keeps_other_checks:
  "quality_cause (cfg\<lparr>setup_time := b\<rparr>) df r = quality_cause cfg df r
   \<and> outside (period_limit (cfg\<lparr>setup_time := b\<rparr>)) (period r)
       = outside (period_limit cfg) (period r)"
proof -
  have "quality_checks (\<lambda>x. x) (cfg\<lparr>setup_time := b\<rparr>) df r = quality_checks (\<lambda>x. x) cfg df r"
    by (simp add: quality_checks_def admission_checks_def Let_def)
  then show ?thesis by (simp add: quality_cause_first_failing [where td = "\<lambda>x. x"])
qed

lemma buffered_effective_times:
  assumes "filter_row td cfg df r = Inr i" and "setup_time cfg" and "transitduration r = Some d"
  shows "schedule_start_time (setup_time cfg) i = midpointcalendar r - 1 - td (d / 2)
         \<and> schedule_end_time (setup_time cfg) i = midpointcalendar r + 1 + td (d / 2)"
proof -
  from assms have "c_start i = midpointcalendar r - 1 / 2 - td (d / 2)
                   \<and> c_end i = midpointcalendar r + 1 / 2 + td (d / 2)"
    by (auto simp: filter_row_def Let_def calculate_transit_times_def
             split: if_splits option.splits)
  with assms(2) show ?thesis
    by (simp add: schedule_start_time_def schedule_end_time_def)
qed

text \<open>What \<open>optimize_schedule\<close> returns: its tables, unless the schedule is empty.\<close>

lemma optimize_schedule_result:
  "optimize_schedule td sort_values cfg df =
     (if fst (optimize_schedule_tables td sort_values cfg df) = []
      then Inl (KeyError ''Name'')
      else Inr (optimize_schedule_tables td sort_values cfg df))"
  by (simp add: optimize_schedule_def plot_schedule_with_plotly_def split: prod.split)

lemma optimize_schedule_Inr:
  "optimize_schedule td sort_values cfg df = Inr (sched, cuts) \<Longrightarrow>
   fst (optimize_schedule_tables td sort_values cfg df) = sched
   \<and> snd (optimize_schedule_tables td sort_values cfg df) = cuts"
  by (auto simp: optimize_schedule_result split: if_splits)

text \<open>The maximum of the greedy pass, for the times that its overlap test reads.\<close>

lemma greedy_is_maximum:
  assumes "sorted (map c_end xs)"
    and "\<forall>x\<in>set xs. schedule_start_time s x < schedule_end_time s x"
  shows "mset (greedy s None xs) \<subseteq># mset xs"
    and "sorted_wrt (\<lambda>a b. schedule_end_time s a \<le> schedule_start_time s b
                       \<or> schedule_end_time s b \<le> schedule_start_time s a) (greedy s None xs)"
    and "mset sel \<subseteq># mset xs \<Longrightarrow>
         sorted_wrt (\<lambda>a b. schedule_end_time s a \<le> schedule_start_time s b
                       \<or> schedule_end_time s b \<le> schedule_start_time s a) sel \<Longrightarrow>
         length sel \<le> length (greedy s None xs)"
proof -
  show "mset (greedy s None xs) \<subseteq># mset xs" by (rule greedy_mset)
  from assms(2) have weak: "\<forall>x\<in>set xs. schedule_start_time s x \<le> schedule_end_time s x"
    by auto
  from greedy_chain [OF weak, of None]
  have "sorted_wrt (\<lambda>a b. schedule_end_time s a \<le> schedule_start_time s b) (greedy s None xs)"
    by simp
  then show "sorted_wrt (\<lambda>a b. schedule_end_time s a \<le> schedule_start_time s b
                       \<or> schedule_end_time s b \<le> schedule_start_time s a) (greedy s None xs)"
    by (rule sorted_wrt_mono_rel [rotated]) simp
  show "length sel \<le> length (greedy s None xs)"
    if "mset sel \<subseteq># mset xs"
      and "sorted_wrt (\<lambda>a b. schedule_end_time s a \<le> schedule_start_time s b
                       \<or> schedule_end_time s b \<le> schedule_start_time s a) sel"
  proof (rule greedy_optimal_from [OF assms that])
    show "\<forall>a\<in>set sel. accepts s None a" by (simp add: accepts_def)
  qed
qed

section \<open>The claims\<close>

text \<open>
  C1 (as amended). With the setup buffer off, when every admitted event has its transit
  start strictly before its transit end and the sort returns the admitted events in
  nondecreasing order of end time, the schedule that \<open>optimize_schedule\<close> builds, and
  returns, is a feasible selection of the admitted events (each taken at most as often as
  admitted, no two overlapping) and no feasible selection has more members.
\<close>

theorem greedy_maximum:
  assumes "\<not> setup_time cfg"
    and "sorts_by_end sort_values (admitted td cfg df)"
    and "proper_intervals (admitted td cfg df)"
  shows "feasible td cfg df
           (map candidate.truncate (fst (optimize_schedule_tables td sort_values cfg df)))
         \<and> (\<forall>sel. feasible td cfg df sel
               \<longrightarrow> length sel \<le> length (fst (optimize_schedule_tables td sort_values cfg df)))
         \<and> (\<forall>sched cuts. optimize_schedule td sort_values cfg df = Inr (sched, cuts) \<longrightarrow>
               feasible td cfg df (map candidate.truncate sched)
               \<and> (\<forall>sel. feasible td cfg df sel \<longrightarrow> length sel \<le> length sched))"
proof -
  let ?xs = "sort_values (admitted td cfg df)"
  let ?g = "greedy False None ?xs"
  from assms(1) have s: "setup_time cfg = False" by simp
  have sched: "fst (optimize_schedule_tables td sort_values cfg df)
                 = map (add_schedule_columns False) ?g"
    using optimize_schedule_tables_greedy [of td sort_values cfg df] by (simp add: s)
  have trunc: "map candidate.truncate (map (add_schedule_columns False) ?g) = ?g"
    by (simp add: comp_def)
  from assms(2) have srt: "sorted (map c_end ?xs)" and perm: "mset ?xs = mset (admitted td cfg df)"
    by (simp_all add: sorts_by_end_def)
  from assms(2,3)
  have proper: "\<forall>x\<in>set ?xs. schedule_start_time False x < schedule_end_time False x"
    by (simp add: sorts_by_end_set proper_intervals_def list_all_iff
        schedule_start_time_def schedule_end_time_def)
  have same: "(\<lambda>a b. schedule_end_time False a \<le> schedule_start_time False b
                 \<or> schedule_end_time False b \<le> schedule_start_time False a) = compatible"
    by (intro ext) (simp add: compatible_def schedule_start_time_def schedule_end_time_def)
  note g = greedy_is_maximum [OF srt proper, unfolded same]
  have first: "feasible td cfg df ?g"
    using g(1) g(2) perm by (simp add: feasible_def non_overlapping_def)
  have second: "\<forall>sel. feasible td cfg df sel \<longrightarrow> length sel \<le> length ?g"
    using g(3) perm by (simp add: feasible_def non_overlapping_def)
  have tables: "feasible td cfg df
           (map candidate.truncate (fst (optimize_schedule_tables td sort_values cfg df)))
         \<and> (\<forall>sel. feasible td cfg df sel
               \<longrightarrow> length sel \<le> length (fst (optimize_schedule_tables td sort_values cfg df)))"
    using first second by (simp only: sched trunc length_map)
  moreover have "feasible td cfg df (map candidate.truncate sched)
               \<and> (\<forall>sel. feasible td cfg df sel \<longrightarrow> length sel \<le> length sched)"
    if "optimize_schedule td sort_values cfg df = Inr (sched, cuts)" for sched cuts
    using optimize_schedule_Inr [OF that] tables by simp
  ultimately show ?thesis by blast
qed

theorem greedy_maximum_witness:
  "\<not> setup_time default_config
   \<and> sorts_by_end (sort_key c_end) (admitted whole_ns default_config abc_frame)
   \<and> proper_intervals (admitted whole_ns default_config abc_frame)
   \<and> feasible whole_ns default_config abc_frame
       [sample_candidate ''B'' 1 11 (21 / 2) (23 / 2)]
   \<and> feasible whole_ns default_config abc_frame
       (map candidate.truncate
          (fst (optimize_schedule_tables whole_ns (sort_key c_end) default_config abc_frame)))
   \<and> length [sample_candidate ''B'' 1 11 (21 / 2) (23 / 2)]
        \<le> length (fst (optimize_schedule_tables whole_ns (sort_key c_end) default_config abc_frame))
   \<and> length (fst (optimize_schedule_tables whole_ns (sort_key c_end) default_config abc_frame)) = 2
   \<and> optimize_schedule whole_ns (sort_key c_end) default_config abc_frame
       = Inr (optimize_schedule_tables whole_ns (sort_key c_end) default_config abc_frame)"
proof -
  have h0: "\<not> setup_time default_config" by code_simp
  have h1: "sorts_by_end (sort_key c_end) (admitted whole_ns default_config abc_frame)"
    by code_simp
  have h2: "proper_intervals (admitted whole_ns default_config abc_frame)"
    by code_simp
  have h3: "feasible whole_ns default_config abc_frame
              [sample_candidate ''B'' 1 11 (21 / 2) (23 / 2)]"
    by code_simp
  have h4: "length (fst (optimize_schedule_tables whole_ns (sort_key c_end) default_config abc_frame)) = 2"
    by code_simp
  have h5: "optimize_schedule whole_ns (sort_key c_end) default_config abc_frame
       = Inr (optimize_schedule_tables whole_ns (sort_key c_end) default_config abc_frame)"
    by code_simp
  from greedy_maximum [OF h0 h1 h2] h0 h1 h2 h3 h4 h5 show ?thesis by blast
qed

text \<open>
  C1 as stated fails in two ways. With the buffer off, for events of duration 0: X
  (duration 0, midpoint 5) and Y (duration 2, midpoint 4) both end at 5; X comes first in
  the table and stays first in the sorted order, the pass accepts X and rejects Y, whose
  start 3 is before 5. Yet X and Y do not overlap, Y ending where X starts: both fit, and
  the schedule holds one event. With the buffer on, for A and B of the buffered sample:
  their intervals from 9 to 11 and from 11:15 to 13:15 are proper and do not overlap, and
  the schedule holds A alone.
\<close>

theorem greedy_not_maximum:
  "sorts_by_end (sort_key c_end) (admitted whole_ns default_config zero_width_frame)
   \<and> map c_name (fst (optimize_schedule_tables whole_ns (sort_key c_end) default_config
                         zero_width_frame)) = [''X'']
   \<and> optimize_schedule whole_ns (sort_key c_end) default_config zero_width_frame
       = Inr (optimize_schedule_tables whole_ns (sort_key c_end) default_config zero_width_frame)
   \<and> feasible whole_ns default_config zero_width_frame
       (admitted whole_ns default_config zero_width_frame)
   \<and> map c_name (admitted whole_ns default_config zero_width_frame) = [''X'', ''Y'']
   \<and> sorts_by_end (sort_key c_end) (admitted whole_ns buffered_config buffered_frame)
   \<and> proper_intervals (admitted whole_ns buffered_config buffered_frame)
   \<and> map c_name (fst (optimize_schedule_tables whole_ns (sort_key c_end) buffered_config
                         buffered_frame)) = [''A'']
   \<and> optimize_schedule whole_ns (sort_key c_end) buffered_config buffered_frame
       = Inr (optimize_schedule_tables whole_ns (sort_key c_end) buffered_config buffered_frame)
   \<and> feasible whole_ns buffered_config buffered_frame
       (admitted whole_ns buffered_config buffered_frame)
   \<and> map (\<lambda>i. (c_name i, c_start i, c_end i)) (admitted whole_ns buffered_config buffered_frame)
       = [(''A'', 9, 11), (''B'', 45 / 4, 53 / 4)]"
  by code_simp

text \<open>
  C2 (as amended). For every table, configuration, timedelta conversion and sort routine,
  each slot of the optimized schedule, in the order of the schedule, ends by its
  \<open>Schedule End Time\<close> at or before the \<open>Schedule Start Time\<close> of the slot after it; so it
  is for the schedule built and for the schedule returned. That order is the ascending
  order of \<open>Schedule Start Time\<close> when the sort returns the admitted events in end order
  and no admitted event ends before it starts.
\<close>

theorem schedule_no_overlap:
  "(\<forall>i. Suc i < length (fst (optimize_schedule_tables td sort_values cfg df)) \<longrightarrow>
        schedule_end (fst (optimize_schedule_tables td sort_values cfg df) ! i)
          \<le> schedule_start (fst (optimize_schedule_tables td sort_values cfg df) ! Suc i))
   \<and> (\<forall>sched cuts. optimize_schedule td sort_values cfg df = Inr (sched, cuts) \<longrightarrow>
        (\<forall>i. Suc i < length sched \<longrightarrow> schedule_end (sched ! i) \<le> schedule_start (sched ! Suc i)))
   \<and> (sorts_by_end sort_values (admitted td cfg df)
        \<and> list_all (\<lambda>c. c_start c \<le> c_end c) (admitted td cfg df)
      \<longrightarrow> sorted (map schedule_start (fst (optimize_schedule_tables td sort_values cfg df))))"
proof (intro conjI)
  show adj: "\<forall>i. Suc i < length (fst (optimize_schedule_tables td sort_values cfg df)) \<longrightarrow>
        schedule_end (fst (optimize_schedule_tables td sort_values cfg df) ! i)
          \<le> schedule_start (fst (optimize_schedule_tables td sort_values cfg df) ! Suc i)"
    using schedule_successively [of td sort_values cfg df] by (simp only: successively_nth)
  show "\<forall>sched cuts. optimize_schedule td sort_values cfg df = Inr (sched, cuts) \<longrightarrow>
        (\<forall>i. Suc i < length sched \<longrightarrow> schedule_end (sched ! i) \<le> schedule_start (sched ! Suc i))"
  proof (intro allI impI)
    fix sched cuts i
    assume "optimize_schedule td sort_values cfg df = Inr (sched, cuts)"
      and "Suc i < length sched"
    with optimize_schedule_Inr [of td sort_values cfg df sched cuts] adj
    show "schedule_end (sched ! i) \<le> schedule_start (sched ! Suc i)" by auto
  qed
next
  let ?s = "setup_time cfg"
  let ?xs = "sort_values (admitted td cfg df)"
  show "sorts_by_end sort_values (admitted td cfg df)
        \<and> list_all (\<lambda>c. c_start c \<le> c_end c) (admitted td cfg df)
      \<longrightarrow> sorted (map schedule_start (fst (optimize_schedule_tables td sort_values cfg df)))"
  proof
    assume a: "sorts_by_end sort_values (admitted td cfg df)
        \<and> list_all (\<lambda>c. c_start c \<le> c_end c) (admitted td cfg df)"
    then have weak: "\<forall>x\<in>set ?xs. schedule_start_time ?s x \<le> schedule_end_time ?s x"
      by (auto simp: sorts_by_end_set list_all_iff schedule_start_time_def schedule_end_time_def)
    from greedy_chain [OF weak, of None]
    have chain: "sorted_wrt (\<lambda>a b. schedule_end_time ?s a \<le> schedule_start_time ?s b) (greedy ?s None ?xs)"
      by simp
    have "set (greedy ?s None ?xs) \<subseteq> set ?xs"
      using greedy_mset [of ?s None ?xs] by (metis set_mset_mono set_mset_mset)
    with weak have "\<forall>x\<in>set (greedy ?s None ?xs). schedule_start_time ?s x \<le> schedule_end_time ?s x"
      by blast
    with chain have "sorted_wrt (\<lambda>a b. schedule_start_time ?s a \<le> schedule_start_time ?s b) (greedy ?s None ?xs)"
      by (rule_tac sorted_wrt_mono_rel [where P = "\<lambda>a b. schedule_end_time ?s a \<le> schedule_start_time ?s b"]) auto
    then show "sorted (map schedule_start (fst (optimize_schedule_tables td sort_values cfg df)))"
      by (simp add: optimize_schedule_tables_greedy sorted_map comp_def)
  qed
qed

theorem schedule_no_overlap_witness:
  "Suc 0 < length (fst (optimize_schedule_tables whole_ns (sort_key c_end) default_config abc_frame))
   \<and> schedule_end (fst (optimize_schedule_tables whole_ns (sort_key c_end) default_config abc_frame) ! 0)
       \<le> schedule_start (fst (optimize_schedule_tables whole_ns (sort_key c_end) default_config abc_frame) ! Suc 0)
   \<and> optimize_schedule whole_ns (sort_key c_end) default_config abc_frame
       = Inr (optimize_schedule_tables whole_ns (sort_key c_end) default_config abc_frame)
   \<and> sorts_by_end (sort_key c_end) (admitted whole_ns default_config abc_frame)
   \<and> list_all (\<lambda>c. c_start c \<le> c_end c) (admitted whole_ns default_config abc_frame)
   \<and> sorted (map schedule_start (fst (optimize_schedule_tables whole_ns (sort_key c_end) default_config abc_frame)))
   \<and> map schedule_start (fst (optimize_schedule_tables whole_ns (sort_key c_end) default_config abc_frame)) = [10, 11]
   \<and> map schedule_end (fst (optimize_schedule_tables whole_ns (sort_key c_end) default_config abc_frame)) = [11, 12]"
proof -
  have h1: "Suc 0 < length (fst (optimize_schedule_tables whole_ns (sort_key c_end) default_config abc_frame))"
    by code_simp
  have h2: "sorts_by_end (sort_key c_end) (admitted whole_ns default_config abc_frame)"
    by code_simp
  have h3: "list_all (\<lambda>c. c_start c \<le> c_end c) (admitted whole_ns default_config abc_frame)"
    by code_simp
  have h4: "map schedule_start (fst (optimize_schedule_tables whole_ns (sort_key c_end) default_config abc_frame)) = [10, 11]"
    by code_simp
  have h5: "map schedule_end (fst (optimize_schedule_tables whole_ns (sort_key c_end) default_config abc_frame)) = [11, 12]"
    by code_simp
  have h6: "optimize_schedule whole_ns (sort_key c_end) default_config abc_frame
       = Inr (optimize_schedule_tables whole_ns (sort_key c_end) default_config abc_frame)"
    by code_simp
  from schedule_no_overlap [of whole_ns "sort_key c_end" default_config abc_frame] h1 h2 h3 h4 h5 h6
  show ?thesis by blast
qed

text \<open>
  C2 as stated fails for a negative duration. N ends at 5 and starts at 8, A runs from 6
  to 10; the pass takes N, then A, whose start 6 is not before 5, and returns them in
  this order. Put in ascending order of start, A comes before N, and A ends at 10, after
  the start 8 of N.
\<close>

theorem negative_duration_breaks_start_order:
  "optimize_schedule whole_ns (sort_key c_end) default_config negative_frame
     = Inr (optimize_schedule_tables whole_ns (sort_key c_end) default_config negative_frame)
   \<and> map (\<lambda>s. (c_name s, schedule_start s, schedule_end s))
         (fst (optimize_schedule_tables whole_ns (sort_key c_end) default_config negative_frame))
       = [(''N'', 8, 5), (''A'', 6, 10)]
   \<and> map (\<lambda>s. (c_name s, schedule_start s, schedule_end s))
         (sort_key schedule_start
            (fst (optimize_schedule_tables whole_ns (sort_key c_end) default_config negative_frame)))
       = [(''A'', 6, 10), (''N'', 8, 5)]
   \<and> \<not> successively (\<lambda>a b. schedule_end a \<le> schedule_start b)
         (sort_key schedule_start
            (fst (optimize_schedule_tables whole_ns (sort_key c_end) default_config negative_frame)))"
  by code_simp

text \<open>
  C3. When the sort returns a rearrangement of the admitted events, the events of the
  input rows are, with their multiplicities, those of the optimized schedule together
  with those of the cut list: every input event is in exactly one of the two, once. So
  it is for the two tables built and for the two tables returned.
\<close>

theorem every_event_once:
  assumes "sorts_by_end sort_values (admitted td cfg df)"
  shows "mset (map row_event (rows df))
           = mset (map slot_event (fst (optimize_schedule_tables td sort_values cfg df)))
             + mset (map cut_event (snd (optimize_schedule_tables td sort_values cfg df)))
         \<and> (\<forall>sched cuts. optimize_schedule td sort_values cfg df = Inr (sched, cuts) \<longrightarrow>
               mset (map row_event (rows df))
                 = mset (map slot_event sched) + mset (map cut_event cuts))"
proof -
  note p = events_partition [OF assms]
  moreover have "mset (map row_event (rows df))
                 = mset (map slot_event sched) + mset (map cut_event cuts)"
    if "optimize_schedule td sort_values cfg df = Inr (sched, cuts)" for sched cuts
    using optimize_schedule_Inr [OF that] p by simp
  ultimately show ?thesis by blast
qed

theorem every_event_once_witness:
  "sorts_by_end (sort_key c_end) (admitted whole_ns default_config abc_frame)
   \<and> mset (map row_event (rows abc_frame))
       = mset (map slot_event (fst (optimize_schedule_tables whole_ns (sort_key c_end) default_config abc_frame)))
         + mset (map cut_event (snd (optimize_schedule_tables whole_ns (sort_key c_end) default_config abc_frame)))
   \<and> optimize_schedule whole_ns (sort_key c_end) default_config abc_frame
       = Inr (optimize_schedule_tables whole_ns (sort_key c_end) default_config abc_frame)
   \<and> map c_name (fst (optimize_schedule_tables whole_ns (sort_key c_end) default_config abc_frame)) = [''A'', ''C'']
   \<and> map x_name (snd (optimize_schedule_tables whole_ns (sort_key c_end) default_config abc_frame)) = [''B'']"
proof -
  have h: "sorts_by_end (sort_key c_end) (admitted whole_ns default_config abc_frame)"
    by code_simp
  have s: "map c_name (fst (optimize_schedule_tables whole_ns (sort_key c_end) default_config abc_frame)) = [''A'', ''C'']"
    by code_simp
  have c: "map x_name (snd (optimize_schedule_tables whole_ns (sort_key c_end) default_config abc_frame)) = [''B'']"
    by code_simp
  have r: "optimize_schedule whole_ns (sort_key c_end) default_config abc_frame
       = Inr (optimize_schedule_tables whole_ns (sort_key c_end) default_config abc_frame)"
    by code_simp
  from every_event_once [OF h] h s c r show ?thesis by blast
qed

text \<open>
  C4. The cause that the admission filter records for a row is the cause of the first
  failing check in the list of checks ordered as in the specification: duration NaN,
  period limit, start before the window, end after the window, magnitude, mid-transit air
  mass, transit depth, missing or NaN ingress/egress air mass, ingress/egress air-mass
  limit; a row that fails no check is admitted. A row failing two checks is never given
  the cause of the later one: its cause is that of a failing check at or before the
  earlier one.
\<close>

theorem filter_first_match:
  "rejection_cause td cfg df r = first_failing (admission_checks td cfg df r)
   \<and> map snd (admission_checks td cfg df r)
       = [DurationNaN, PeriodLimit, StartBeforeWindow, EndAfterWindow, MagnitudeLimit,
          AirMassLimit, TransitDepthLimit,
          if has_ingressairmass df \<and> has_egressairmass df
          then NaNIngressEgress else IngressEgressMissing,
          IngressEgressLimit]
   \<and> (\<forall>i j. i < j \<and> j < length (admission_checks td cfg df r)
            \<and> fst (admission_checks td cfg df r ! i) \<and> fst (admission_checks td cfg df r ! j)
          \<longrightarrow> rejection_cause td cfg df r \<noteq> Some (snd (admission_checks td cfg df r ! j))
              \<and> (\<exists>k\<le>i. fst (admission_checks td cfg df r ! k)
                    \<and> rejection_cause td cfg df r = Some (snd (admission_checks td cfg df r ! k))))"
proof (intro conjI allI impI)
  show "rejection_cause td cfg df r = first_failing (admission_checks td cfg df r)"
    by (rule rejection_cause_first_failing)
next
  show "map snd (admission_checks td cfg df r)
       = [DurationNaN, PeriodLimit, StartBeforeWindow, EndAfterWindow, MagnitudeLimit,
          AirMassLimit, TransitDepthLimit,
          if has_ingressairmass df \<and> has_egressairmass df
          then NaNIngressEgress else IngressEgressMissing,
          IngressEgressLimit]"
    by (simp add: admission_checks_def Let_def)
next
  fix i j
  assume a: "i < j \<and> j < length (admission_checks td cfg df r)
            \<and> fst (admission_checks td cfg df r ! i) \<and> fst (admission_checks td cfg df r ! j)"
  from first_failing_earliest [OF admission_causes_distinct, of i j td cfg df r] a
  show "rejection_cause td cfg df r \<noteq> Some (snd (admission_checks td cfg df r ! j))"
    by (simp add: rejection_cause_first_failing)
  from first_failing_earliest [OF admission_causes_distinct, of i j td cfg df r] a
  show "\<exists>k\<le>i. fst (admission_checks td cfg df r ! k)
                    \<and> rejection_cause td cfg df r = Some (snd (admission_checks td cfg df r ! k))"
    by (simp add: rejection_cause_first_failing)
qed

theorem filter_first_match_witness:
  "(4::nat) < 6 \<and> 6 < length (admission_checks whole_ns default_config (sample_frame []) two_failures_row)
   \<and> fst (admission_checks whole_ns default_config (sample_frame []) two_failures_row ! 4)
   \<and> fst (admission_checks whole_ns default_config (sample_frame []) two_failures_row ! 6)
   \<and> snd (admission_checks whole_ns default_config (sample_frame []) two_failures_row ! 6) = TransitDepthLimit
   \<and> rejection_cause whole_ns default_config (sample_frame []) two_failures_row \<noteq> Some TransitDepthLimit
   \<and> rejection_cause whole_ns default_config (sample_frame []) two_failures_row = Some MagnitudeLimit"
proof -
  let ?cs = "admission_checks whole_ns default_config (sample_frame []) two_failures_row"
  have h: "(4::nat) < 6 \<and> 6 < length ?cs \<and> fst (?cs ! 4) \<and> fst (?cs ! 6)"
    by code_simp
  have s: "snd (?cs ! 6) = TransitDepthLimit" by code_simp
  have m: "rejection_cause whole_ns default_config (sample_frame []) two_failures_row = Some MagnitudeLimit"
    by code_simp
  from filter_first_match [of whole_ns default_config "sample_frame []" two_failures_row] h
  have "rejection_cause whole_ns default_config (sample_frame []) two_failures_row \<noteq> Some (snd (?cs ! 6))"
    by blast
  with h s m show ?thesis by simp
qed

text \<open>
  C5. With the buffer on, the derivation of the specification gives A the interval from 9
  to 11 and B the interval from 11:15 to 13:15, which do not overlap. The overlap test of
  \<open>optimize_schedule\<close> subtracts and adds the thirty minutes once more, on times that
  \<open>calculate_transit_times\<close> has buffered already: it takes A from 8:30 to 11:30 and B from
  10:45, and cuts B as overlapping. These are the tables that the call returns.
\<close>

theorem setup_buffer_applied_twice:
  "calculate_transit_times whole_ns 10 1 True = (9, 11)
   \<and> calculate_transit_times whole_ns (49 / 4) 1 True = (45 / 4, 53 / 4)
   \<and> map (\<lambda>s. (c_name s, c_start s, c_end s, schedule_start s, schedule_end s))
         (fst (optimize_schedule_tables whole_ns (sort_key c_end) buffered_config buffered_frame))
       = [(''A'', 9, 11, 17 / 2, 23 / 2)]
   \<and> map (\<lambda>e. (x_name e, x_start e, x_end e, x_cause e))
         (snd (optimize_schedule_tables whole_ns (sort_key c_end) buffered_config buffered_frame))
       = [(''B'', Some (45 / 4), Some (53 / 4), Overlapping)]
   \<and> optimize_schedule whole_ns (sort_key c_end) buffered_config buffered_frame
       = Inr (optimize_schedule_tables whole_ns (sort_key c_end) buffered_config buffered_frame)"
  by code_simp

text \<open>
  C7 (as amended). \<open>optimize_schedule\<close> has no check of its configuration: with a range
  whose maximum is below its minimum it goes through every row as with any other
  configuration, the schedule and the cut list that it builds having together as many
  entries as the table has rows. No event whose value for that range is a number is
  scheduled, only a NaN passing an inverted range; and whenever an event is scheduled,
  the call returns the two tables.
\<close>

theorem inverted_range_is_processed:
  assumes "sorts_by_end sort_values (admitted td cfg df)"
  shows "length (fst (optimize_schedule_tables td sort_values cfg df))
           + length (snd (optimize_schedule_tables td sort_values cfg df)) = length (rows df)
         \<and> (inverted (magnitude_limit cfg) \<longrightarrow>
              (\<forall>s\<in>set (fst (optimize_schedule_tables td sort_values cfg df)). c_mag_k s = None))
         \<and> (inverted (period_limit cfg) \<longrightarrow>
              (\<forall>s\<in>set (fst (optimize_schedule_tables td sort_values cfg df)). c_period s = None))
         \<and> (inverted (transit_depth_limit cfg) \<longrightarrow>
              (\<forall>s\<in>set (fst (optimize_schedule_tables td sort_values cfg df)). c_depth s = None))
         \<and> (fst (optimize_schedule_tables td sort_values cfg df) \<noteq> [] \<longrightarrow>
              optimize_schedule td sort_values cfg df
                = Inr (optimize_schedule_tables td sort_values cfg df))"
proof -
  have limits: "\<not> outside (period_limit cfg) (c_period s)
         \<and> \<not> outside (magnitude_limit cfg) (c_mag_k s)
         \<and> \<not> outside (transit_depth_limit cfg) (c_depth s)"
    if "s \<in> set (fst (optimize_schedule_tables td sort_values cfg df))" for s
  proof -
    from scheduled_admitted [OF assms that] obtain i
      where "i \<in> set (admitted td cfg df)" and s: "s = add_schedule_columns (setup_time cfg) i"
      by blast
    from admitted_origin [OF this(1)] obtain r where "filter_row td cfg df r = Inr i" by blast
    from filter_row_admitted_limits [OF this] s show ?thesis by simp
  qed
  have "size (mset (map row_event (rows df)))
          = size (mset (map slot_event (fst (optimize_schedule_tables td sort_values cfg df)))
                  + mset (map cut_event (snd (optimize_schedule_tables td sort_values cfg df))))"
    using events_partition [OF assms] by simp
  then have "length (fst (optimize_schedule_tables td sort_values cfg df))
           + length (snd (optimize_schedule_tables td sort_values cfg df)) = length (rows df)"
    by simp
  moreover have "fst (optimize_schedule_tables td sort_values cfg df) \<noteq> [] \<longrightarrow>
              optimize_schedule td sort_values cfg df
                = Inr (optimize_schedule_tables td sort_values cfg df)"
    by (simp add: optimize_schedule_result)
  ultimately show ?thesis using limits by (auto dest: inverted_outside)
qed

theorem inverted_range_is_processed_witness:
  "sorts_by_end (sort_key c_end) (admitted whole_ns inverted_config inverted_frame)
   \<and> inverted (magnitude_limit inverted_config)
   \<and> length (fst (optimize_schedule_tables whole_ns (sort_key c_end) inverted_config inverted_frame))
       + length (snd (optimize_schedule_tables whole_ns (sort_key c_end) inverted_config inverted_frame))
       = length (rows inverted_frame)
   \<and> map c_mag_k (fst (optimize_schedule_tables whole_ns (sort_key c_end) inverted_config inverted_frame)) = [None]
   \<and> optimize_schedule whole_ns (sort_key c_end) inverted_config inverted_frame
       = Inr (optimize_schedule_tables whole_ns (sort_key c_end) inverted_config inverted_frame)"
proof -
  have h: "sorts_by_end (sort_key c_end) (admitted whole_ns inverted_config inverted_frame)"
    by code_simp
  have i: "inverted (magnitude_limit inverted_config)" by code_simp
  have n: "map c_name (fst (optimize_schedule_tables whole_ns (sort_key c_end) inverted_config inverted_frame)) = [''Q'']"
    by code_simp
  then obtain s where s: "fst (optimize_schedule_tables whole_ns (sort_key c_end) inverted_config inverted_frame) = [s]"
    by (auto simp: map_eq_Cons_conv)
  from inverted_range_is_processed [OF h] i s
  have "length (fst (optimize_schedule_tables whole_ns (sort_key c_end) inverted_config inverted_frame))
       + length (snd (optimize_schedule_tables whole_ns (sort_key c_end) inverted_config inverted_frame))
       = length (rows inverted_frame)" and "c_mag_k s = None"
    and "optimize_schedule whole_ns (sort_key c_end) inverted_config inverted_frame
       = Inr (optimize_schedule_tables whole_ns (sort_key c_end) inverted_config inverted_frame)"
    by auto
  with h i s show ?thesis by simp
qed

text \<open>
  C7 as stated fails: with the magnitude range from 5 down to 1 nothing is raised at the
  boundary. On the table of P and Q the call goes through the rows, cuts P for its
  magnitude, schedules Q, whose magnitude is NaN, and returns the two tables. On the
  table of P alone the rows are gone through as well, P is cut for its magnitude, and
  what ends the call afterwards is the \<open>KeyError\<close> of the plotting function on the empty
  schedule, which says nothing of the configuration.
\<close>

theorem inverted_range_not_checked:
  "magnitude_limit inverted_config = Some (5, 1)
   \<and> optimize_schedule whole_ns (sort_key c_end) inverted_config inverted_frame
       = Inr (optimize_schedule_tables whole_ns (sort_key c_end) inverted_config inverted_frame)
   \<and> map c_name (fst (optimize_schedule_tables whole_ns (sort_key c_end) inverted_config inverted_frame))
       = [''Q'']
   \<and> map (\<lambda>e. (x_name e, x_cause e))
         (snd (optimize_schedule_tables whole_ns (sort_key c_end) inverted_config inverted_frame))
       = [(''P'', MagnitudeLimit)]
   \<and> optimize_schedule whole_ns (sort_key c_end) inverted_config numeric_frame
       = Inl (KeyError ''Name'')
   \<and> map (\<lambda>e. (x_name e, x_cause e))
         (snd (optimize_schedule_tables whole_ns (sort_key c_end) inverted_config numeric_frame))
       = [(''P'', MagnitudeLimit)]"
  by code_simp

text \<open>
  C8. \<open>count_max_schedules\<close> returns the number of candidate schedules whose greedy forward
  scan, in the given order, keeps as many events as the reference schedule has rows. The
  loops of the source assign only to their own variables \<open>temp_schedule\<close>,
  \<open>last_end_time\<close> and \<open>max_schedules_count\<close>, which are the whole state of the model: the
  two arguments are read and never written.
\<close>

theorem count_max_schedules_counts:
  "count_max_schedules all_schedules optimized_schedule_df
     = length (filter (\<lambda>c. length (forward_scan None c) = length optimized_schedule_df)
                 all_schedules)"
  by (simp add: count_max_schedules_def count_fold_filter)

theorem count_max_schedules_counts_witness:
  "count_max_schedules abc_candidates
       (fst (optimize_schedule_tables whole_ns (sort_key c_end) default_config abc_frame)) = 2
   \<and> map (\<lambda>c. length (forward_scan None c)) abc_candidates = [2, 1, 2]
   \<and> length (fst (optimize_schedule_tables whole_ns (sort_key c_end) default_config abc_frame)) = 2"
proof -
  have a: "map (\<lambda>c. length (forward_scan None c)) abc_candidates = [2, 1, 2]" by code_simp
  have b: "length (fst (optimize_schedule_tables whole_ns (sort_key c_end) default_config abc_frame)) = 2"
    by code_simp
  have "length (filter (\<lambda>c. length (forward_scan None c) = 2) abc_candidates) = 2"
    by code_simp
  with a b count_max_schedules_counts [of abc_candidates
      "fst (optimize_schedule_tables whole_ns (sort_key c_end) default_config abc_frame)"]
  show ?thesis by simp
qed

text \<open>
  C9 (as amended). The transit start is strictly before the transit end exactly when the
  timedelta made of half the duration is positive, without the buffer, or above minus
  thirty minutes, with it. For the duration 0, when its timedelta is zero, the derivation
  gives the single point of the midpoint without the buffer and the hour around the
  midpoint with it. Three durations are worked out after the theorem: 0; two hours, with
  the start before the end; and the ten-trillionth of an hour, whose half is below a
  nanosecond, with the start equal to the end.
\<close>

theorem transit_times_order:
  "(fst (calculate_transit_times td m d False) < snd (calculate_transit_times td m d False))
     = (0 < td (d / 2))
   \<and> (fst (calculate_transit_times td m d True) < snd (calculate_transit_times td m d True))
     = (- (1 / 2) < td (d / 2))
   \<and> (td 0 = 0 \<longrightarrow>
        calculate_transit_times td m 0 False = (m, m)
        \<and> calculate_transit_times td m 0 True = (m - 1 / 2, m + 1 / 2))"
  by (auto simp: calculate_transit_times_def)

theorem transit_times_order_witness:
  "whole_ns 0 = 0
   \<and> calculate_transit_times whole_ns 10 0 False = (10, 10)
   \<and> calculate_transit_times whole_ns 10 0 True = (19 / 2, 21 / 2)
   \<and> 0 < whole_ns (2 / 2)
   \<and> fst (calculate_transit_times whole_ns 10 2 False)
       < snd (calculate_transit_times whole_ns 10 2 False)
   \<and> calculate_transit_times whole_ns 10 2 False = (9, 11)
   \<and> \<not> 0 < whole_ns (1 / 10000000000000 / 2)
   \<and> \<not> fst (calculate_transit_times whole_ns 10 (1 / 10000000000000) False)
         < snd (calculate_transit_times whole_ns 10 (1 / 10000000000000) False)"
proof -
  have z: "whole_ns 0 = 0" by code_simp
  have p: "0 < whole_ns (2 / 2)" by code_simp
  have t: "\<not> 0 < whole_ns (1 / 10000000000000 / 2)" by code_simp
  have v: "calculate_transit_times whole_ns 10 2 False = (9, 11)" by code_simp
  have a: "(10::rat) - 1 / 2 = 19 / 2" "(10::rat) + 1 / 2 = 21 / 2" by simp_all
  from transit_times_order [of whole_ns 10 0] z a
  have "calculate_transit_times whole_ns 10 0 False = (10, 10)
        \<and> calculate_transit_times whole_ns 10 0 True = (19 / 2, 21 / 2)"
    by simp
  moreover from transit_times_order [of whole_ns 10 2] p
  have "fst (calculate_transit_times whole_ns 10 2 False)
          < snd (calculate_transit_times whole_ns 10 2 False)"
    by simp
  moreover from transit_times_order [of whole_ns 10 "1 / 10000000000000"] t
  have "\<not> fst (calculate_transit_times whole_ns 10 (1 / 10000000000000) False)
         < snd (calculate_transit_times whole_ns 10 (1 / 10000000000000) False)"
    by simp
  ultimately show ?thesis using z p t v by simp
qed

text \<open>
  C9 as stated fails: for the duration 0 without the buffer the transit start equals the
  transit end, so it is not strictly before it.
\<close>

theorem zero_duration_not_strict:
  "calculate_transit_times whole_ns 5 0 False = (5, 5)
   \<and> \<not> fst (calculate_transit_times whole_ns 5 0 False)
         < snd (calculate_transit_times whole_ns 5 0 False)"
  by code_simp

text \<open>
  C10. Every entry of the cut list whose cause is one of the two time-window causes has
  no transit start and no transit end: line 226 reads \<open>current_row_info\<close> while it is still
  \<open>None\<close>, so the entry is built without the times that line 215 computed. So it is for
  the cut list built and for the cut list returned.
\<close>

theorem window_rejection_has_no_times:
  "(\<forall>e\<in>set (snd (optimize_schedule_tables td sort_values cfg df)).
      x_cause e = StartBeforeWindow \<or> x_cause e = EndAfterWindow
      \<longrightarrow> x_start e = None \<and> x_end e = None)
   \<and> (\<forall>sched cuts. optimize_schedule td sort_values cfg df = Inr (sched, cuts) \<longrightarrow>
        (\<forall>e\<in>set cuts.
           x_cause e = StartBeforeWindow \<or> x_cause e = EndAfterWindow
           \<longrightarrow> x_start e = None \<and> x_end e = None))"
proof -
  have tables: "\<forall>e\<in>set (snd (optimize_schedule_tables td sort_values cfg df)).
      x_cause e = StartBeforeWindow \<or> x_cause e = EndAfterWindow
      \<longrightarrow> x_start e = None \<and> x_end e = None"
  proof (intro ballI impI)
    fix e
    assume e: "e \<in> set (snd (optimize_schedule_tables td sort_values cfg df))"
      and w: "x_cause e = StartBeforeWindow \<or> x_cause e = EndAfterWindow"
    from cut_list_origin [OF e] show "x_start e = None \<and> x_end e = None"
    proof
      assume "\<exists>r\<in>set (rows df). filter_row td cfg df r = Inl e"
      then obtain r where "filter_row td cfg df r = Inl e" by blast
      from filter_row_window_entry [OF this w] show ?thesis .
    next
      assume "\<exists>x. e = with_cause x Overlapping"
      with w show ?thesis by auto
    qed
  qed
  moreover have "\<forall>e\<in>set cuts.
           x_cause e = StartBeforeWindow \<or> x_cause e = EndAfterWindow
           \<longrightarrow> x_start e = None \<and> x_end e = None"
    if "optimize_schedule td sort_values cfg df = Inr (sched, cuts)" for sched cuts
    using optimize_schedule_Inr [OF that] tables by auto
  ultimately show ?thesis by blast
qed

theorem window_rejection_has_no_times_witness:
  "map (\<lambda>e. (x_name e, x_cause e, x_start e, x_end e))
       (snd (optimize_schedule_tables whole_ns (sort_key c_end) window_config window_frame))
     = [(''E'', StartBeforeWindow, None, None), (''L'', EndAfterWindow, None, None)]
   \<and> map c_name (fst (optimize_schedule_tables whole_ns (sort_key c_end) window_config window_frame)) = [''A'']
   \<and> optimize_schedule whole_ns (sort_key c_end) window_config window_frame
       = Inr (optimize_schedule_tables whole_ns (sort_key c_end) window_config window_frame)"
proof -
  let ?cuts = "snd (optimize_schedule_tables whole_ns (sort_key c_end) window_config window_frame)"
  have n: "map (\<lambda>e. (x_name e, x_cause e)) ?cuts
             = [(''E'', StartBeforeWindow), (''L'', EndAfterWindow)]"
    by code_simp
  have s: "map c_name (fst (optimize_schedule_tables whole_ns (sort_key c_end) window_config window_frame)) = [''A'']"
    by code_simp
  have r: "optimize_schedule whole_ns (sort_key c_end) window_config window_frame
       = Inr (optimize_schedule_tables whole_ns (sort_key c_end) window_config window_frame)"
    by code_simp
  from n obtain e1 e2 where c: "?cuts = [e1, e2]"
    and e1: "x_name e1 = ''E''" "x_cause e1 = StartBeforeWindow"
    and e2: "x_name e2 = ''L''" "x_cause e2 = EndAfterWindow"
    by (auto simp: map_eq_Cons_conv)
  from window_rejection_has_no_times [of whole_ns "sort_key c_end" window_config window_frame] c e1 e2
  have "x_start e1 = None \<and> x_end e1 = None \<and> x_start e2 = None \<and> x_end e2 = None"
    by simp
  with c e1 e2 s r show ?thesis by simp
qed

end
